theory Spec2Isabelle
  imports Main "HOL-Library.Sublist" "HOL-Library.Multiset"
begin

section \<open>The weather script: feed parser and template renderer\<close>

text \<open>
  The development embeds \<^verbatim>\<open>parse_weather\<close> and \<^verbatim>\<open>render_svg\<close> of
  \<^verbatim>\<open>weather-script.py\<close>. \<^verbatim>\<open>parse_weather\<close> begins by asking the module
  \<^verbatim>\<open>xml.dom.expatbuilder\<close> for a builder class and by building a minidom document
  from the bytes; \<open>parse_document\<close> is the rest of the function, from the line
  \<^verbatim>\<open>highs = [None] * NUM_DAYS\<close> to the \<^verbatim>\<open>return\<close>, as a function of that
  document. Python strings are lists of characters; a \<^typ>\<open>char\<close> stands for the code
  point of the same number, so the documents covered are those whose text stays within
  the first 256 code points.
\<close>

subsection \<open>Exceptions\<close>

text \<open>One constructor for every place where the two functions can raise.\<close>

datatype error =
    ModuleAttributeError
      \<comment> \<open>AttributeError: module \<^verbatim>\<open>xml.dom.expatbuilder\<close> has no attribute of that name\<close>
  | IntValueError \<comment> \<open>\<^verbatim>\<open>int(s)\<close>: invalid literal, or more digits than the conversion limit\<close>
  | IntTypeError \<comment> \<open>\<^verbatim>\<open>int(None)\<close>\<close>
  | SplitAttributeError \<comment> \<open>\<^verbatim>\<open>None.split\<close>\<close>
  | MissingStartValidTime \<comment> \<open>ValueError: Weather feed did not contain start-valid-time\<close>
  | SubscriptTypeError \<comment> \<open>\<^verbatim>\<open>None[0:10]\<close>\<close>
  | StrptimeValueError \<comment> \<open>ValueError of \<^verbatim>\<open>datetime.strptime\<close>\<close>
  | IncompleteTemperatures
      \<comment> \<open>ValueError: Weather feed did not contain complete high/low temperature data\<close>
  | IndexError \<comment> \<open>list index out of range\<close>
  | StrValueError \<comment> \<open>\<^verbatim>\<open>str(n)\<close>: more digits than the conversion limit\<close>
  | OverflowError \<comment> \<open>\<^verbatim>\<open>datetime + timedelta\<close>: date value out of range\<close>

subsection \<open>The minidom document\<close>

datatype node =
    Element string "(string \<times> string) list" "node list"
  | Text string
  | CDATASection string
  | Comment string
  | ProcessingInstruction string string

datatype document = Document "node list"



fun childNodes :: "node \<Rightarrow> node list" where
  "childNodes (Element t as cs) = cs"
| "childNodes n = []"

fun nodeValue :: "node \<Rightarrow> string option" where
  "nodeValue (Element t as cs) = None"
| "nodeValue (Text d) = Some d"
| "nodeValue (CDATASection d) = Some d"
| "nodeValue (Comment d) = Some d"
| "nodeValue (ProcessingInstruction t d) = Some d"

definition firstChild :: "node \<Rightarrow> node option" where
  "firstChild n = (case childNodes n of [] \<Rightarrow> None | c # cs \<Rightarrow> Some c)"

text \<open>\<^verbatim>\<open>getAttribute\<close> gives the empty string for an attribute that is not there.\<close>

fun getAttribute :: "node \<Rightarrow> string \<Rightarrow> string" where
  "getAttribute (Element t as cs) name = (case map_of as name of None \<Rightarrow> [] | Some v \<Rightarrow> v)"
| "getAttribute n name = []"

text \<open>
  minidom's helper behind \<^verbatim>\<open>getElementsByTagName\<close>: every element below the parent
  with the tag name asked for, in document order (a node before its descendants).
\<close>

fun get_elements_by_tagName_helper :: "node list \<Rightarrow> string \<Rightarrow> node list" where
  "get_elements_by_tagName_helper [] name = []"
| "get_elements_by_tagName_helper (Element t as cs # ns) name =
     (if name = ''*'' \<or> t = name then [Element t as cs] else [])
       @ get_elements_by_tagName_helper cs name
       @ get_elements_by_tagName_helper ns name"
| "get_elements_by_tagName_helper (n # ns) name = get_elements_by_tagName_helper ns name"

definition getElementsByTagName :: "node \<Rightarrow> string \<Rightarrow> node list" where
  "getElementsByTagName parent name = get_elements_by_tagName_helper (childNodes parent) name"

fun dom_getElementsByTagName :: "document \<Rightarrow> string \<Rightarrow> node list" where
  "dom_getElementsByTagName (Document cs) name = get_elements_by_tagName_helper cs name"

subsection \<open>String methods\<close>

text \<open>\<^verbatim>\<open>s.split(sep)\<close> for a separator of one character: never an empty list.\<close>

fun split :: "string \<Rightarrow> char \<Rightarrow> string list" where
  "split [] sep = [[]]"
| "split (c # cs) sep =
     (if c = sep then [] # split cs sep
      else (case split cs sep of
              [] \<Rightarrow> [[c]]
            | w # ws \<Rightarrow> (c # w) # ws))"

definition rstrip :: "string \<Rightarrow> string \<Rightarrow> string" where
  "rstrip s chars = rev (dropWhile (\<lambda>c. c \<in> set chars) (rev s))"

text \<open>
  \<^verbatim>\<open>str.lower\<close> on the first 256 code points: A to Z become a to z, and the capital
  letters from 192 to 222, without the multiplication sign 215, move up by 32.
\<close>

definition lower_char :: "char \<Rightarrow> char" where
  "lower_char c =
     (case map_of (zip ''ABCDEFGHIJKLMNOPQRSTUVWXYZ'' ''abcdefghijklmnopqrstuvwxyz'') c of
        Some l \<Rightarrow> l
      | None \<Rightarrow>
          (let n = (of_char c :: nat)
           in if 192 \<le> n \<and> n \<le> 222 \<and> n \<noteq> 215 then char_of (n + 32) else c))"

definition lower :: "string \<Rightarrow> string" where
  "lower s = map lower_char s"

subsection \<open>Icon tokens\<close>

definition NUM_DAYS :: nat where
  "NUM_DAYS = 4"

text \<open>\<^verbatim>\<open>ICON_TOKEN_RE.fullmatch\<close> for the pattern \<^verbatim>\<open>^[a-z0-9_-]+$\<close>.\<close>

definition ICON_TOKEN_RE_fullmatch :: "string \<Rightarrow> bool" where
  "ICON_TOKEN_RE_fullmatch s =
     (s \<noteq> [] \<and> list_all (\<lambda>c. c \<in> set ''abcdefghijklmnopqrstuvwxyz0123456789_-'') s)"

definition icon_raw :: "string \<Rightarrow> string" where
  "icon_raw v = rstrip (hd (split (last (split v (CHR ''/''))) (CHR ''.''))) ''0123456789''"

text \<open>The body of the icon loop for one day index.\<close>

definition icon_token :: "node list \<Rightarrow> nat \<Rightarrow> error + string" where
  "icon_token xml_icons i =
     (if i < length xml_icons \<and> firstChild (xml_icons ! i) \<noteq> None
      then (case nodeValue (the (firstChild (xml_icons ! i))) of
              None \<Rightarrow> Inl SplitAttributeError
            | Some v \<Rightarrow>
                (let normalized = lower (icon_raw v)
                 in if ICON_TOKEN_RE_fullmatch normalized then Inr normalized else Inr ''na''))
      else Inr ''na'')"

fun icon_loop :: "node list \<Rightarrow> nat list \<Rightarrow> string list \<Rightarrow> error + string list" where
  "icon_loop xml_icons [] icons = Inr icons"
| "icon_loop xml_icons (i # is) icons =
     (case icon_token xml_icons i of
        Inl e \<Rightarrow> Inl e
      | Inr token \<Rightarrow> icon_loop xml_icons is (icons @ [token]))"


definition all_icons :: "node list \<Rightarrow> error + string list" where
  "all_icons xml_icons = icon_loop xml_icons [0..<NUM_DAYS] []"

subsection \<open>Temperatures\<close>

text \<open>
  \<^verbatim>\<open>int(s)\<close> on a string: white space around, a sign, decimal digits with single
  underscores between them, and no more digits than the conversion limit of the
  interpreter (4300 unless configured otherwise).
\<close>

definition int_space :: "char \<Rightarrow> bool" where
  "int_space c = ((of_char c :: nat) \<in> {9, 10, 11, 12, 13, 32, 133, 160})"

definition is_digit :: "char \<Rightarrow> bool" where
  "is_digit c = (c \<in> set ''0123456789'')"

definition digit_value :: "char \<Rightarrow> int" where
  "digit_value c = int (of_char c) - 48"

fun digits_grouped :: "string \<Rightarrow> bool" where
  "digits_grouped [] = False"
| "digits_grouped [c] = is_digit c"
| "digits_grouped (c # d # r) =
     (is_digit c \<and> (if d = CHR ''_'' then digits_grouped r else digits_grouped (d # r)))"

definition int_max_str_digits :: nat where
  "int_max_str_digits = 4300"

definition decimal_value :: "string \<Rightarrow> int" where
  "decimal_value s = foldl (\<lambda>a c. 10 * a + digit_value c) 0 (filter is_digit s)"

definition unsigned_int :: "string \<Rightarrow> error + int" where
  "unsigned_int s =
     (if \<not> digits_grouped s then Inl IntValueError
      else if int_max_str_digits < length (filter is_digit s) then Inl IntValueError
      else Inr (decimal_value s))"

definition py_int :: "string option \<Rightarrow> error + int" where
  "py_int v =
     (case v of
        None \<Rightarrow> Inl IntTypeError
      | Some s \<Rightarrow>
          (case rev (dropWhile int_space (rev (dropWhile int_space s))) of
             [] \<Rightarrow> Inl IntValueError
           | c # r \<Rightarrow>
               if c = CHR ''-'' then map_sum id uminus (unsigned_int r)
               else if c = CHR ''+'' then unsigned_int r
               else unsigned_int (c # r)))"

text \<open>The inner loops: \<^verbatim>\<open>highs[i] = int(values[i].firstChild.nodeValue)\<close> for the
  indices of the range, those without a first child left alone.\<close>

fun fill :: "node list \<Rightarrow> nat list \<Rightarrow> int option list \<Rightarrow> error + int option list" where
  "fill values [] temps = Inr temps"
| "fill values (i # is) temps =
     (case firstChild (values ! i) of
        None \<Rightarrow> fill values is temps
      | Some c \<Rightarrow>
          (case py_int (nodeValue c) of
             Inl e \<Rightarrow> Inl e
           | Inr n \<Rightarrow> fill values is (temps[i := Some n])))"

definition fill_if :: "node \<Rightarrow> string \<Rightarrow> int option list \<Rightarrow> error + int option list" where
  "fill_if item kind temps =
     (let values = getElementsByTagName item ''value''
      in if getAttribute item ''type'' = kind
         then fill values [0..<min NUM_DAYS (length values)] temps
         else Inr temps)"

fun temperature_loop ::
  "node list \<Rightarrow> int option list \<Rightarrow> int option list
     \<Rightarrow> error + (int option list \<times> int option list)" where
  "temperature_loop [] highs lows = Inr (highs, lows)"
| "temperature_loop (item # items) highs lows =
     (case fill_if item ''maximum'' highs of
        Inl e \<Rightarrow> Inl e
      | Inr highs' \<Rightarrow>
          (case fill_if item ''minimum'' lows of
             Inl e \<Rightarrow> Inl e
           | Inr lows' \<Rightarrow> temperature_loop items highs' lows'))"

definition temperatures :: "document \<Rightarrow> error + (int option list \<times> int option list)" where
  "temperatures doc =
     temperature_loop (dom_getElementsByTagName doc ''temperature'')
       (replicate NUM_DAYS None) (replicate NUM_DAYS None)"

subsection \<open>Dates\<close>

text \<open>
  A \<^verbatim>\<open>datetime\<close> as \<^verbatim>\<open>strptime\<close> builds it from a date: the time of day is
  midnight and plays no part in what follows.
\<close>

record datetime =
  year :: int
  month :: int
  day :: int

definition is_leap :: "int \<Rightarrow> bool" where
  "is_leap y = (y mod 4 = 0 \<and> (y mod 100 \<noteq> 0 \<or> y mod 400 = 0))"

definition days_in_month :: "int \<Rightarrow> int \<Rightarrow> int" where
  "days_in_month y m =
     (if m = 2 \<and> is_leap y then 29
      else [31, 28, 31, 30, 31, 30, 31, 31, 30, 31, 30, 31] ! nat (m - 1))"

definition days_before_year :: "int \<Rightarrow> int" where
  "days_before_year y = (y - 1) * 365 + (y - 1) div 4 - (y - 1) div 100 + (y - 1) div 400"

definition days_before_month :: "int \<Rightarrow> int \<Rightarrow> int" where
  "days_before_month y m =
     [0, 31, 59, 90, 120, 151, 181, 212, 243, 273, 304, 334] ! nat (m - 1)
       + (if 2 < m \<and> is_leap y then 1 else 0)"

definition toordinal :: "datetime \<Rightarrow> int" where
  "toordinal d = days_before_year (year d) + days_before_month (year d) (month d) + day d"

definition MAXORDINAL :: int where
  "MAXORDINAL = 3652059"

text \<open>
  \<^verbatim>\<open>strptime(s, "%Y-%m-%d")\<close>: the regular expression of the format is
  \<^verbatim>\<open>(\d\d\d\d)-(1[0-2]|0[1-9]|[1-9])-(3[0-1]|[1-2]\d|0[1-9]|[1-9]| [1-9])\<close>, matched at the
  start of the string; text left over after the match is an error, and so is a date
  that the calendar does not have.
\<close>

definition nonzero_digit :: "char \<Rightarrow> bool" where
  "nonzero_digit c = (c \<in> set ''123456789'')"

definition match_month :: "string \<Rightarrow> (int \<times> string) option" where
  "match_month s =
     (case s of
        a # b # r \<Rightarrow>
          if a = CHR ''1'' \<and> b \<in> set ''012'' then Some (10 + digit_value b, r)
          else if a = CHR ''0'' \<and> nonzero_digit b then Some (digit_value b, r)
          else if nonzero_digit a then Some (digit_value a, b # r)
          else None
      | [a] \<Rightarrow> if nonzero_digit a then Some (digit_value a, []) else None
      | [] \<Rightarrow> None)"

definition match_day :: "string \<Rightarrow> (int \<times> string) option" where
  "match_day s =
     (case s of
        a # b # r \<Rightarrow>
          if a = CHR ''3'' \<and> b \<in> set ''01'' then Some (30 + digit_value b, r)
          else if a \<in> set ''12'' \<and> is_digit b then Some (10 * digit_value a + digit_value b, r)
          else if a = CHR ''0'' \<and> nonzero_digit b then Some (digit_value b, r)
          else if nonzero_digit a then Some (digit_value a, b # r)
          else if a = CHR '' '' \<and> nonzero_digit b then Some (digit_value b, r)
          else None
      | [a] \<Rightarrow> if nonzero_digit a then Some (digit_value a, []) else None
      | [] \<Rightarrow> None)"

definition make_date :: "int \<Rightarrow> int \<Rightarrow> int \<Rightarrow> error + datetime" where
  "make_date y m d =
     (if 1 \<le> y \<and> y \<le> 9999 \<and> 1 \<le> m \<and> m \<le> 12 \<and> 1 \<le> d \<and> d \<le> days_in_month y m
      then Inr \<lparr>year = y, month = m, day = d\<rparr>
      else Inl StrptimeValueError)"

definition strptime_ymd :: "string \<Rightarrow> error + datetime" where
  "strptime_ymd s =
     (case s of
        y1 # y2 # y3 # y4 # dash # r \<Rightarrow>
          if list_all is_digit [y1, y2, y3, y4] \<and> dash = CHR ''-''
          then (case match_month r of
                  None \<Rightarrow> Inl StrptimeValueError
                | Some (m, r') \<Rightarrow>
                    (case r' of
                       [] \<Rightarrow> Inl StrptimeValueError
                     | dash' # r'' \<Rightarrow>
                         if dash' = CHR ''-''
                         then (case match_day r'' of
                                 None \<Rightarrow> Inl StrptimeValueError
                               | Some (d, rest) \<Rightarrow>
                                   if rest = [] then make_date (decimal_value [y1, y2, y3, y4]) m d
                                   else Inl StrptimeValueError)
                         else Inl StrptimeValueError))
          else Inl StrptimeValueError
      | _ \<Rightarrow> Inl StrptimeValueError)"

subsection \<open>The parser, once the document is built\<close>

definition start_date :: "node list \<Rightarrow> error + datetime" where
  "start_date xml_start_times =
     (if xml_start_times = [] \<or> firstChild (xml_start_times ! 0) = None
      then Inl MissingStartValidTime
      else (case nodeValue (the (firstChild (xml_start_times ! 0))) of
              None \<Rightarrow> Inl SubscriptTypeError
            | Some v \<Rightarrow> strptime_ymd (take 10 v)))"

definition parse_document ::
  "document \<Rightarrow> error + (int option list \<times> int option list \<times> string list \<times> datetime)" where
  "parse_document doc =
     (case temperatures doc of
        Inl e \<Rightarrow> Inl e
      | Inr (highs, lows) \<Rightarrow>
          (case all_icons (dom_getElementsByTagName doc ''icon-link'') of
             Inl e \<Rightarrow> Inl e
           | Inr icons \<Rightarrow>
               (case start_date (dom_getElementsByTagName doc ''start-valid-time'') of
                  Inl e \<Rightarrow> Inl e
                | Inr day_one \<Rightarrow>
                    if list_ex (\<lambda>v. v = None) highs \<or> list_ex (\<lambda>v. v = None) lows
                    then Inl IncompleteTemperatures
                    else Inr (highs, lows, icons, day_one))))"


text \<open>
  The names that the module \<^verbatim>\<open>xml.dom.expatbuilder\<close> of the standard library
  defines, those between double underscores that every module has left aside, and the
  attribute access \<^verbatim>\<open>xml.dom.expatbuilder.name\<close>. The script imports nothing that
  adds a name to the module.
\<close>

definition expatbuilder_names :: "string list" where
  "expatbuilder_names =
     [''CDATA_SECTION_NODE'', ''DOCUMENT_NODE'', ''EMPTY_NAMESPACE'', ''EMPTY_PREFIX'',
      ''ElementInfo'', ''ExpatBuilder'', ''ExpatBuilderNS'', ''FILTER_ACCEPT'',
      ''FILTER_INTERRUPT'', ''FILTER_REJECT'', ''FILTER_SKIP'', ''FilterCrutch'',
      ''FilterVisibilityController'', ''FragmentBuilder'', ''FragmentBuilderNS'',
      ''InternalSubsetExtractor'', ''Namespaces'', ''Node'', ''NodeFilter'', ''ParseEscape'',
      ''Rejecter'', ''Skipper'', ''TEXT_NODE'', ''XMLNS_NAMESPACE'',
      ''_ALLOWED_FILTER_RETURNS'', ''_FRAGMENT_BUILDER_INTERNAL_SYSTEM_ID'',
      ''_FRAGMENT_BUILDER_TEMPLATE'', ''_append_child'', ''_intern'', ''_parse_ns_name'',
      ''_set_attribute_node'', ''_typeinfo_map'', ''expat'', ''makeBuilder'',
      ''minidom'', ''parse'', ''parseFragment'', ''parseFragmentString'', ''parseString'',
      ''theDOMImplementation'', ''xmlbuilder'']"

definition expatbuilder_getattr :: "string \<Rightarrow> error + string" where
  "expatbuilder_getattr name =
     (if name \<in> set expatbuilder_names then Inr name else Inl ModuleAttributeError)"

text \<open>
  \<^verbatim>\<open>parse_weather\<close> itself. What the builder class found under the name makes of the
  bytes is library code and comes in as \<open>parseString\<close>: the class and the bytes give a
  document or an error.
\<close>

definition parse_weather ::
  "(string \<Rightarrow> string \<Rightarrow> error + document) \<Rightarrow> string
     \<Rightarrow> error + (int option list \<times> int option list \<times> string list \<times> datetime)" where
  "parse_weather parseString weather_xml =
     (case expatbuilder_getattr ''DefusedExpatBuilderNS'' of
        Inl e \<Rightarrow> Inl e
      | Inr parser \<Rightarrow>
          (case parseString parser weather_xml of
             Inl e \<Rightarrow> Inl e
           | Inr doc \<Rightarrow> parse_document doc))"

subsection \<open>The renderer\<close>

text \<open>
  \<^verbatim>\<open>s.replace(old, new)\<close>: the occurrences of \<^verbatim>\<open>old\<close> are found from the left and
  do not overlap; the text put in is not searched again. An empty \<^verbatim>\<open>old\<close> matches
  before every character and at the end.
\<close>

fun replace :: "string \<Rightarrow> string \<Rightarrow> string \<Rightarrow> string" where
  "replace [] old new = (if old = [] then new else [])"
| "replace (c # cs) old new =
     (if old = [] then new @ c # replace cs old new
      else if prefix old (c # cs) then new @ replace (drop (length old) (c # cs)) old new
      else c # replace cs old new)"

fun decimal_digits :: "nat \<Rightarrow> string" where
  "decimal_digits n =
     (if n < 10 then [''0123456789'' ! n]
      else decimal_digits (n div 10) @ [''0123456789'' ! (n mod 10)])"

declare decimal_digits.simps [simp del]

text \<open>
  \<^verbatim>\<open>str(n)\<close> for an integer: its decimal digits after a minus sign when it is
  negative, refused beyond the conversion limit that \<^verbatim>\<open>int\<close> has too.
\<close>

definition decimal :: "int \<Rightarrow> string" where
  "decimal n = (if n < 0 then CHR ''-'' # decimal_digits (nat (- n)) else decimal_digits (nat n))"

definition str :: "int \<Rightarrow> error + string" where
  "str n =
     (if int_max_str_digits < length (decimal_digits (nat \<bar>n\<bar>)) then Inl StrValueError
      else Inr (decimal n))"

definition getitem :: "'a list \<Rightarrow> nat \<Rightarrow> error + 'a" where
  "getitem xs i = (if i < length xs then Inr (xs ! i) else Inl IndexError)"

definition on_success :: "error + 'a \<Rightarrow> ('a \<Rightarrow> error + 'b) \<Rightarrow> error + 'b" where
  "on_success r f = (case r of Inl e \<Rightarrow> Inl e | Inr x \<Rightarrow> f x)"

definition days_of_week :: "string list" where
  "days_of_week =
     [''Monday'', ''Tuesday'', ''Wednesday'', ''Thursday'', ''Friday'', ''Caturday'', ''Sunday'']"

text \<open>
  \<^verbatim>\<open>(day_one + k * one_day).weekday()\<close>: the sum is the date whose ordinal is \<open>k\<close> more,
  it has to lie in the range of \<^verbatim>\<open>datetime\<close>, and its weekday is read off its ordinal,
  Monday being 0.
\<close>

definition weekday_after :: "datetime \<Rightarrow> int \<Rightarrow> error + nat" where
  "weekday_after day_one k =
     (let n = toordinal day_one + k
      in if 0 < n \<and> n \<le> MAXORDINAL then Inr (nat ((n + 6) mod 7)) else Inl OverflowError)"

text \<open>\<^verbatim>\<open>d.weekday()\<close>, Monday being 0.\<close>

definition weekday :: "datetime \<Rightarrow> nat" where
  "weekday d = nat ((toordinal d + 6) mod 7)"

text \<open>The template file is read by the caller's side of the model and passed in.\<close>

definition render_svg ::
  "string \<Rightarrow> int list \<Rightarrow> int list \<Rightarrow> string list \<Rightarrow> datetime \<Rightarrow> error + string" where
  "render_svg template highs lows icons day_one =
     on_success (getitem icons 0) (\<lambda>icon_one.
     on_success (getitem icons 1) (\<lambda>icon_two.
     on_success (getitem icons 2) (\<lambda>icon_three.
     on_success (getitem icons 3) (\<lambda>icon_four.
     on_success (on_success (getitem highs 0) str) (\<lambda>high_one.
     on_success (on_success (getitem highs 1) str) (\<lambda>high_two.
     on_success (on_success (getitem highs 2) str) (\<lambda>high_three.
     on_success (on_success (getitem highs 3) str) (\<lambda>high_four.
     on_success (on_success (getitem lows 0) str) (\<lambda>low_one.
     on_success (on_success (getitem lows 1) str) (\<lambda>low_two.
     on_success (on_success (getitem lows 2) str) (\<lambda>low_three.
     on_success (on_success (getitem lows 3) str) (\<lambda>low_four.
     on_success (weekday_after day_one 2) (\<lambda>day_three.
     on_success (weekday_after day_one 3) (\<lambda>day_four.
       Inr (replace (replace
             (replace (replace (replace (replace
             (replace (replace (replace (replace
             (replace (replace (replace (replace template
               ''ICON_ONE'' icon_one) ''ICON_TWO'' icon_two)
               ''ICON_THREE'' icon_three) ''ICON_FOUR'' icon_four)
               ''HIGH_ONE'' high_one) ''HIGH_TWO'' high_two)
               ''HIGH_THREE'' high_three) ''HIGH_FOUR'' high_four)
               ''LOW_ONE'' low_one) ''LOW_TWO'' low_two)
               ''LOW_THREE'' low_three) ''LOW_FOUR'' low_four)
               ''DAY_THREE'' (days_of_week ! day_three))
               ''DAY_FOUR'' (days_of_week ! day_four))))))))))))))))"


subsection \<open>Example documents\<close>

text \<open>A feed with four highs, four lows, three icon links and a start time.\<close>

definition sample_feed :: document where
  "sample_feed = Document [Element ''dwml'' [] [
     Element ''start-valid-time'' [] [Text ''2024-03-10T00:00:00''],
     Element ''temperature'' [(''type'', ''maximum'')]
       [Element ''name'' [] [Text ''Daily Maximum Temperature''],
        Element ''value'' [] [Text ''70''], Element ''value'' [] [Text ''72''],
        Element ''value'' [] [Text ''68''], Element ''value'' [] [Text ''65'']],
     Element ''temperature'' [(''type'', ''minimum'')]
       [Element ''value'' [] [Text ''55''], Element ''value'' [] [Text ''58''],
        Element ''value'' [] [Text ''50''], Element ''value'' [] [Text ''48'']],
     Element ''icon-link'' [] [Text ''https://example.com/path/ICON42.png''],
     Element ''icon-link'' [] [Text ''http://x/12345.png''],
     Element ''icon-link'' [] []]]"

text \<open>A feed whose only temperature is not a number.\<close>

definition bad_temperature_feed :: document where
  "bad_temperature_feed = Document [Element ''dwml'' [] [
     Element ''temperature'' [(''type'', ''maximum'')] [Element ''value'' [] [Text ''7x'']]]]"

subsection \<open>The icon token in the words of the specification\<close>






subsection \<open>Which element writes which day\<close>









subsection \<open>The shape of a date text\<close>




definition valid_date :: "datetime \<Rightarrow> bool" where
  "valid_date d =
     (1 \<le> year d \<and> year d \<le> 9999 \<and> 1 \<le> month d \<and> month d \<le> 12 \<and>
      1 \<le> day d \<and> day d \<le> days_in_month (year d) (month d))"


subsection \<open>Stages of the rendering\<close>

text \<open>
  The template after the replacements of the four icons, the four highs and the four lows,
  before the two weekday names go in.
\<close>

definition temperature_body :: "string \<Rightarrow> int list \<Rightarrow> int list \<Rightarrow> string list \<Rightarrow> string" where
  "temperature_body template highs lows icons =
     replace (replace (replace (replace
    (replace (replace (replace (replace
    (replace (replace (replace (replace template
       ''ICON_ONE'' (icons ! 0)) ''ICON_TWO'' (icons ! 1))
       ''ICON_THREE'' (icons ! 2)) ''ICON_FOUR'' (icons ! 3))
       ''HIGH_ONE'' (decimal (highs ! 0))) ''HIGH_TWO'' (decimal (highs ! 1)))
       ''HIGH_THREE'' (decimal (highs ! 2))) ''HIGH_FOUR'' (decimal (highs ! 3)))
       ''LOW_ONE'' (decimal (lows ! 0))) ''LOW_TWO'' (decimal (lows ! 1)))
       ''LOW_THREE'' (decimal (lows ! 2))) ''LOW_FOUR'' (decimal (lows ! 3))"

text \<open>The integers that \<^verbatim>\<open>str\<close> converts.\<close>

definition printable :: "int \<Rightarrow> bool" where
  "printable n = (length (decimal_digits (nat \<bar>n\<bar>)) \<le> int_max_str_digits)"

subsection \<open>Placeholders and words that cannot overlap\<close>

text \<open>
  \<open>apart old m\<close>: at no position of \<open>m\<close> does the rest of \<open>m\<close> begin with
  \<open>old\<close> or \<open>old\<close> begin with the rest of \<open>m\<close>, so that no occurrence of
  \<open>old\<close> in a text starts inside an occurrence of \<open>m\<close>.
\<close>

definition apart :: "string \<Rightarrow> string \<Rightarrow> bool" where
  "apart old m = list_all (\<lambda>i. \<not> prefix old (drop i m) \<and> \<not> prefix (drop i m) old) [0..<length m]"

text \<open>The fourteen placeholders that \<^verbatim>\<open>render_svg\<close> replaces, in its order.\<close>

definition placeholders :: "string list" where
  "placeholders =
     [''ICON_ONE'', ''ICON_TWO'', ''ICON_THREE'', ''ICON_FOUR'',
      ''HIGH_ONE'', ''HIGH_TWO'', ''HIGH_THREE'', ''HIGH_FOUR'',
      ''LOW_ONE'', ''LOW_TWO'', ''LOW_THREE'', ''LOW_FOUR'',
      ''DAY_THREE'', ''DAY_FOUR'']"

subsection \<open>Replacing in another order\<close>

text \<open>Replacements one after the other, each on the result of the one before.\<close>

definition replace_all :: "(string \<times> string) list \<Rightarrow> string \<Rightarrow> string" where
  "replace_all steps s = foldl (\<lambda>out (old, new). replace out old new) s steps"

text \<open>
  Replacement of all the words at once: the text is read from the left, and where a word
  of the list begins, its new text is put and the reading goes on behind the word.
\<close>

fun substitute :: "(string \<times> string) list \<Rightarrow> string \<Rightarrow> string" where
  "substitute steps [] = []"
| "substitute steps (c # cs) =
     (case find (\<lambda>(old, new). old \<noteq> [] \<and> prefix old (c # cs)) steps of
        None \<Rightarrow> c # substitute steps cs
      | Some (old, new) \<Rightarrow> new @ substitute steps (drop (length old - 1) cs))"

text \<open>
  A new text that cannot help to form the word \<open>q\<close>: it holds neither the first nor
  the last character of \<open>q\<close> and does not lie inside \<open>q\<close>.
\<close>

definition inert :: "string \<Rightarrow> string \<Rightarrow> bool" where
  "inert new q = (hd q \<notin> set new \<and> last q \<notin> set new \<and> \<not> sublist new q)"

text \<open>
  Steps whose words are different and not empty, no word overlapping another, and every
  new text inert for the words of the other steps.
\<close>

definition compatible :: "(string \<times> string) list \<Rightarrow> bool" where
  "compatible steps =
     (distinct (map fst steps) \<and>
      (\<forall>a\<in>set steps. fst a \<noteq> [] \<and>
         (\<forall>b\<in>set steps. fst b \<noteq> fst a \<longrightarrow> apart (fst b) (fst a) \<and> inert (snd b) (fst a))))"

text \<open>The fourteen replacements of \<^verbatim>\<open>render_svg\<close>, in its order.\<close>

definition substitutions ::
  "int list \<Rightarrow> int list \<Rightarrow> string list \<Rightarrow> datetime \<Rightarrow> (string \<times> string) list" where
  "substitutions highs lows icons day_one =
     [(''ICON_ONE'', icons ! 0), (''ICON_TWO'', icons ! 1),
      (''ICON_THREE'', icons ! 2), (''ICON_FOUR'', icons ! 3),
      (''HIGH_ONE'', decimal (highs ! 0)), (''HIGH_TWO'', decimal (highs ! 1)),
      (''HIGH_THREE'', decimal (highs ! 2)), (''HIGH_FOUR'', decimal (highs ! 3)),
      (''LOW_ONE'', decimal (lows ! 0)), (''LOW_TWO'', decimal (lows ! 1)),
      (''LOW_THREE'', decimal (lows ! 2)), (''LOW_FOUR'', decimal (lows ! 3)),
      (''DAY_THREE'', days_of_week ! nat ((toordinal day_one + 2 + 6) mod 7)),
      (''DAY_FOUR'', days_of_week ! nat ((toordinal day_one + 3 + 6) mod 7))]"

text \<open>The characters of the pattern for icon tokens.\<close>

definition token_chars :: "char set" where
  "token_chars = set ''abcdefghijklmnopqrstuvwxyz0123456789_-''"

text \<open>
  The replacements for the highs 70, 72, 68, 65, the lows 55, 58, 50, 48, the icons
  \<^verbatim>\<open>_\<close>, few, bkn, rain and the start date 2024-06-03, with the first high moved to
  the front.
\<close>

definition high_first :: "(string \<times> string) list" where
  "high_first =
     [(''HIGH_ONE'', ''70''),
      (''ICON_ONE'', ''_''), (''ICON_TWO'', ''few''), (''ICON_THREE'', ''bkn''),
      (''ICON_FOUR'', ''rain''),
      (''HIGH_TWO'', ''72''), (''HIGH_THREE'', ''68''), (''HIGH_FOUR'', ''65''),
      (''LOW_ONE'', ''55''), (''LOW_TWO'', ''58''), (''LOW_THREE'', ''50''), (''LOW_FOUR'', ''48''),
      (''DAY_THREE'', ''Wednesday''), (''DAY_FOUR'', ''Thursday'')]"

section \<open>Properties\<close>

subsection \<open>The builder class that is not there\<close>

text \<open>
  The module has no attribute \<^verbatim>\<open>DefusedExpatBuilderNS\<close>, so
  \<^verbatim>\<open>parse_weather\<close> raises on its first statement, whatever the bytes and whatever
  the library would have built from them.
\<close>

lemma parse_weather_raises: "parse_weather parseString weather_xml = Inl ModuleAttributeError"
  by (simp add: parse_weather_def expatbuilder_getattr_def expatbuilder_names_def)

subsection \<open>Splitting and stripping\<close>






lemma rstrip_all: "list_all (\<lambda>c. c \<in> set chars) s \<Longrightarrow> rstrip s chars = []"
  by (simp add: rstrip_def list_all_iff)

subsection \<open>The icon loop\<close>

lemma icon_loop_result:
  "icon_loop xml_icons is acc = Inr icons \<Longrightarrow>
     length icons = length acc + length is \<and>
     (\<forall>k<length acc. icons ! k = acc ! k) \<and>
     (\<forall>k<length is. icon_token xml_icons (is ! k) = Inr (icons ! (length acc + k)))"
proof (induction "is" arbitrary: acc)
  case Nil
  then show ?case by simp
next
  case (Cons i "is")
  then obtain token where t: "icon_token xml_icons i = Inr token"
    and r: "icon_loop xml_icons is (acc @ [token]) = Inr icons"
    by (auto split: sum.splits)
  from Cons.IH [OF r] have len: "length icons = length acc + 1 + length is"
    and old: "\<forall>k<length acc + 1. icons ! k = (acc @ [token]) ! k"
    and new: "\<forall>k<length is. icon_token xml_icons (is ! k) = Inr (icons ! (length acc + 1 + k))"
    by auto
  from old have tok: "icons ! length acc = token" by (metis less_add_one nth_append_length)
  have "\<forall>k<length (i # is). icon_token xml_icons ((i # is) ! k) = Inr (icons ! (length acc + k))"
  proof (intro allI impI)
    fix k assume "k < length (i # is)"
    then show "icon_token xml_icons ((i # is) ! k) = Inr (icons ! (length acc + k))"
      using t tok new by (cases k) auto
  qed
  moreover have "\<forall>k<length acc. icons ! k = acc ! k"
    using old by (simp add: nth_append)
  ultimately show ?case using len by simp
qed

lemma all_icons_result:
  assumes "all_icons xml_icons = Inr icons"
  shows "length icons = NUM_DAYS"
    and "i < NUM_DAYS \<Longrightarrow> icon_token xml_icons i = Inr (icons ! i)"
  using icon_loop_result [of xml_icons "[0..<NUM_DAYS]" "[]" icons] assms
  by (auto simp: all_icons_def)

lemma icon_token_matches: "icon_token xml_icons i = Inr t \<Longrightarrow> ICON_TOKEN_RE_fullmatch t"
  by (auto simp: icon_token_def ICON_TOKEN_RE_fullmatch_def Let_def split: if_splits option.splits)

text \<open>
  A candidate of decimal digits only loses all of them to the digit stripping, and the
  body of the icon loop answers \<^verbatim>\<open>na\<close>.
\<close>

lemma digits_only_candidate_is_na:
  assumes "i < length xml_icons" and "firstChild (xml_icons ! i) = Some c"
    and "nodeValue c = Some v"
    and "list_all is_digit (hd (split (last (split v (CHR ''/''))) (CHR ''.'')))"
  shows "icon_raw v = [] \<and> \<not> ICON_TOKEN_RE_fullmatch (lower (icon_raw v)) \<and>
         icon_token xml_icons i = Inr ''na''"
proof -
  have raw: "icon_raw v = []"
    using assms(4) unfolding icon_raw_def is_digit_def by (rule rstrip_all)
  then have "\<not> ICON_TOKEN_RE_fullmatch (lower (icon_raw v))"
    by (simp add: lower_def ICON_TOKEN_RE_fullmatch_def)
  then show ?thesis
    using raw assms(1-3) by (simp add: icon_token_def)
qed

lemma digits_only_candidate_example:
  "list_all is_digit (hd (split (last (split ''x/12345.png'' (CHR ''/''))) (CHR ''.''))) \<and>
   icon_raw ''x/12345.png'' = [] \<and>
   icon_token [Element ''icon-link'' [] [Text ''x/12345.png'']] 0 = Inr ''na''"
proof -
  have h: "list_all is_digit (hd (split (last (split ''x/12345.png'' (CHR ''/''))) (CHR ''.'')))"
    by (simp add: is_digit_def)
  show ?thesis
    using h digits_only_candidate_is_na [of 0 "[Element ''icon-link'' [] [Text ''x/12345.png'']]"
        "Text ''x/12345.png''" "''x/12345.png''"]
    by (simp add: firstChild_def)
qed

subsection \<open>Evaluating the parser on a document\<close>

lemma upt_NUM_DAYS: "[0..<NUM_DAYS] = [0, 1, 2, 3]"
  by (simp add: NUM_DAYS_def upt_rec)

lemma replicate_4: "replicate 4 x = [x, x, x, x]"
  by (simp add: eval_nat_numeral)

lemmas eval_int = py_int_def int_space_def unsigned_int_def is_digit_def decimal_value_def
  digit_value_def int_max_str_digits_def

lemmas eval_icon = icon_token_def firstChild_def icon_raw_def rstrip_def lower_def
  lower_char_def ICON_TOKEN_RE_fullmatch_def

lemmas eval_date = start_date_def firstChild_def strptime_ymd_def match_month_def match_day_def
  make_date_def is_digit_def nonzero_digit_def decimal_value_def digit_value_def
  days_in_month_def is_leap_def

lemmas eval_temperatures = temperatures_def fill_if_def getElementsByTagName_def
  replicate_4 NUM_DAYS_def upt_rec firstChild_def eval_int

lemma sample_temperatures:
  "temperatures sample_feed =
     Inr ([Some 70, Some 72, Some 68, Some 65], [Some 55, Some 58, Some 50, Some 48])"
  by (simp add: sample_feed_def eval_temperatures)

lemma sample_icons:
  "all_icons (dom_getElementsByTagName sample_feed ''icon-link'') =
     Inr [''icon'', ''na'', ''na'', ''na'']"
  by (simp add: all_icons_def sample_feed_def upt_NUM_DAYS eval_icon)

lemma sample_start:
  "start_date (dom_getElementsByTagName sample_feed ''start-valid-time'') =
     Inr \<lparr>year = 2024, month = 3, day = 10\<rparr>"
  by (simp add: sample_feed_def eval_date)

lemma sample_parse:
  "parse_document sample_feed =
     Inr ([Some 70, Some 72, Some 68, Some 65], [Some 55, Some 58, Some 50, Some 48],
          [''icon'', ''na'', ''na'', ''na''], \<lparr>year = 2024, month = 3, day = 10\<rparr>)"
  by (simp add: parse_document_def sample_temperatures sample_icons sample_start)

subsection \<open>What a returned tuple holds\<close>

lemma parse_document_Inr:
  assumes "parse_document doc = Inr (highs, lows, icons, day_one)"
  shows "temperatures doc = Inr (highs, lows)"
    and "all_icons (dom_getElementsByTagName doc ''icon-link'') = Inr icons"
    and "start_date (dom_getElementsByTagName doc ''start-valid-time'') = Inr day_one"
    and "None \<notin> set highs" and "None \<notin> set lows"
  using assms
  by (auto simp: parse_document_def list_ex_iff split: sum.splits if_splits prod.splits)

lemma fill_length: "fill values is temps = Inr temps' \<Longrightarrow> length temps' = length temps"
  by (induction "is" arbitrary: temps) (auto split: option.splits sum.splits)

lemma fill_if_length: "fill_if item kind temps = Inr temps' \<Longrightarrow> length temps' = length temps"
  by (auto simp: fill_if_def Let_def fill_length split: if_splits)

lemma temperature_loop_length:
  "temperature_loop items highs lows = Inr (highs', lows') \<Longrightarrow>
     length highs' = length highs \<and> length lows' = length lows"
  by (induction items arbitrary: highs lows) (auto split: sum.splits dest: fill_if_length)

lemma temperatures_length:
  "temperatures doc = Inr (highs, lows) \<Longrightarrow> length highs = NUM_DAYS \<and> length lows = NUM_DAYS"
  by (auto simp: temperatures_def dest: temperature_loop_length)

text \<open>
  A tuple that \<open>parse_document\<close> returns has four highs, four lows and four icons;
  every high and low is an integer and every icon matches the pattern.
\<close>

lemma parse_document_result_shape:
  assumes "parse_document doc = Inr (highs, lows, icons, day_one)"
  shows "length highs = 4 \<and> length lows = 4 \<and> length icons = 4 \<and>
         (\<forall>v\<in>set highs. \<exists>n. v = Some n) \<and> (\<forall>v\<in>set lows. \<exists>n. v = Some n) \<and>
         (\<forall>t\<in>set icons. ICON_TOKEN_RE_fullmatch t) \<and> ICON_TOKEN_RE_fullmatch ''na''"
proof -
  note p = parse_document_Inr [OF assms]
  have len: "length highs = 4" "length lows = 4"
    using temperatures_length [OF p(1)] by (simp_all add: NUM_DAYS_def)
  have ilen: "length icons = 4"
    using all_icons_result(1) [OF p(2)] by (simp add: NUM_DAYS_def)
  have "ICON_TOKEN_RE_fullmatch t" if "t \<in> set icons" for t
  proof -
    from that obtain i where "i < length icons" "t = icons ! i"
      by (auto simp: in_set_conv_nth)
    then show ?thesis
      using all_icons_result(2) [OF p(2), of i] ilen icon_token_matches
      by (simp add: NUM_DAYS_def)
  qed
  moreover have "\<exists>n. v = Some n" if "v \<in> set highs" for v
    using that p(4) by (metis not_None_eq)
  moreover have "\<exists>n. v = Some n" if "v \<in> set lows" for v
    using that p(5) by (metis not_None_eq)
  moreover have "ICON_TOKEN_RE_fullmatch ''na''"
    by (simp add: ICON_TOKEN_RE_fullmatch_def)
  ultimately show ?thesis using len ilen by blast
qed

lemma parse_document_result_shape_example:
  "parse_document sample_feed =
     Inr ([Some 70, Some 72, Some 68, Some 65], [Some 55, Some 58, Some 50, Some 48],
          [''icon'', ''na'', ''na'', ''na''], \<lparr>year = 2024, month = 3, day = 10\<rparr>) \<and>
   length [''icon'', ''na'', ''na'', ''na''] = 4 \<and>
   ICON_TOKEN_RE_fullmatch ''icon'' \<and> ICON_TOKEN_RE_fullmatch ''na''"
  using parse_document_result_shape [OF sample_parse] sample_parse by simp

subsection \<open>Errors of the temperature loop\<close>

lemma py_int_error: "py_int v = Inl e \<Longrightarrow> e = IntValueError \<or> e = IntTypeError"
  by (auto simp: py_int_def unsigned_int_def map_sum_def split: option.splits list.splits if_splits sum.splits)

lemma fill_error: "fill values is temps = Inl e \<Longrightarrow> e = IntValueError \<or> e = IntTypeError"
  by (induction "is" arbitrary: temps) (auto split: option.splits sum.splits dest: py_int_error)

lemma fill_bad_value:
  assumes "i \<in> set is" and "firstChild (values ! i) = Some c" and "py_int (nodeValue c) = Inl e"
  shows "\<exists>e'. fill values is temps = Inl e'"
  using assms(1)
proof (induction "is" arbitrary: temps)
  case Nil
  then show ?case by simp
next
  case (Cons j js)
  show ?case
  proof (cases "j = i")
    case True
    then show ?thesis using assms(2,3) by simp
  next
    case False
    with Cons.prems have "i \<in> set js" by simp
    from Cons.IH [OF this] show ?thesis
      by (auto split: option.splits sum.splits)
  qed
qed

lemma fill_if_error:
  "fill_if item kind temps = Inl e \<Longrightarrow> e = IntValueError \<or> e = IntTypeError"
  by (auto simp: fill_if_def Let_def split: if_splits dest: fill_error)

lemma temperature_loop_error:
  "temperature_loop items highs lows = Inl e \<Longrightarrow> e = IntValueError \<or> e = IntTypeError"
  by (induction items arbitrary: highs lows) (auto split: sum.splits dest: fill_if_error)

lemma fill_if_bad_value:
  assumes "getAttribute item ''type'' = kind"
    and "i < min NUM_DAYS (length (getElementsByTagName item ''value''))"
    and "firstChild (getElementsByTagName item ''value'' ! i) = Some c"
    and "py_int (nodeValue c) = Inl e"
  shows "\<exists>e'. fill_if item kind temps = Inl e'"
  using fill_bad_value [of i "[0..<min NUM_DAYS (length (getElementsByTagName item ''value''))]"
      "getElementsByTagName item ''value''" c e temps] assms
  by (simp add: fill_if_def Let_def)

lemma temperature_loop_bad_value:
  assumes "item \<in> set items"
    and "getAttribute item ''type'' = ''maximum'' \<or> getAttribute item ''type'' = ''minimum''"
    and "i < min NUM_DAYS (length (getElementsByTagName item ''value''))"
    and "firstChild (getElementsByTagName item ''value'' ! i) = Some c"
    and "py_int (nodeValue c) = Inl e"
  shows "\<exists>e'. temperature_loop items highs lows = Inl e'"
  using assms(1)
proof (induction items arbitrary: highs lows)
  case Nil
  then show ?case by simp
next
  case (Cons x xs)
  show ?case
  proof (cases "x = item")
    case True
    from assms(2) show ?thesis
    proof
      assume "getAttribute item ''type'' = ''maximum''"
      from fill_if_bad_value [OF this assms(3-5), of highs] show ?thesis
        using True by auto
    next
      assume "getAttribute item ''type'' = ''minimum''"
      from fill_if_bad_value [OF this assms(3-5), of lows] show ?thesis
        using True by (auto split: sum.splits)
    qed
  next
    case False
    with Cons.prems have "item \<in> set xs" by simp
    from Cons.IH [OF this] show ?thesis
      by (auto split: sum.splits)
  qed
qed

text \<open>
  A value among the first four of a maximum or minimum element whose text \<^verbatim>\<open>int\<close>
  rejects makes \<open>parse_document\<close> fail in the temperature loop.
\<close>

lemma bad_temperature_text_fails:
  assumes "item \<in> set (dom_getElementsByTagName doc ''temperature'')"
    and "getAttribute item ''type'' = ''maximum'' \<or> getAttribute item ''type'' = ''minimum''"
    and "i < min NUM_DAYS (length (getElementsByTagName item ''value''))"
    and "firstChild (getElementsByTagName item ''value'' ! i) = Some c"
    and "nodeValue c = Some s"
    and "py_int (Some s) = Inl IntValueError"
  shows "parse_document doc = Inl IntValueError \<or> parse_document doc = Inl IntTypeError"
proof -
  from assms(5,6) have "py_int (nodeValue c) = Inl IntValueError" by simp
  from temperature_loop_bad_value [OF assms(1-4) this]
  obtain e where e: "temperatures doc = Inl e"
    unfolding temperatures_def by blast
  then have "e = IntValueError \<or> e = IntTypeError"
    unfolding temperatures_def by (rule temperature_loop_error)
  moreover have "parse_document doc = Inl e"
    using e by (simp add: parse_document_def)
  ultimately show ?thesis by auto
qed

lemma bad_temperature_text_fails_example:
  "Element ''temperature'' [(''type'', ''maximum'')] [Element ''value'' [] [Text ''7x'']]
     \<in> set (dom_getElementsByTagName bad_temperature_feed ''temperature'') \<and>
   py_int (Some ''7x'') = Inl IntValueError \<and>
   (parse_document bad_temperature_feed = Inl IntValueError \<or>
    parse_document bad_temperature_feed = Inl IntTypeError)"
proof -
  let ?item = "Element ''temperature'' [(''type'', ''maximum'')] [Element ''value'' [] [Text ''7x'']]"
  have a: "?item \<in> set (dom_getElementsByTagName bad_temperature_feed ''temperature'')"
    by (simp add: bad_temperature_feed_def)
  have b: "getAttribute ?item ''type'' = ''maximum'' \<or> getAttribute ?item ''type'' = ''minimum''"
    by simp
  have c: "(0::nat) < min NUM_DAYS (length (getElementsByTagName ?item ''value''))"
    by (simp add: NUM_DAYS_def getElementsByTagName_def)
  have d: "firstChild (getElementsByTagName ?item ''value'' ! 0) = Some (Text ''7x'')"
    by (simp add: getElementsByTagName_def firstChild_def)
  have e: "nodeValue (Text ''7x'') = Some ''7x''"
    by simp
  have f: "py_int (Some ''7x'') = Inl IntValueError"
    by (simp add: eval_int)
  show ?thesis
    using a f bad_temperature_text_fails [OF a b c d e f] by simp
qed

subsection \<open>The tokens of the icon loop\<close>







subsection \<open>Incomplete temperatures\<close>




subsection \<open>The temperature loop: the last write wins\<close>











subsection \<open>The start time\<close>

lemma is_digit_cases:
  "is_digit c \<longleftrightarrow> c = CHR ''0'' \<or> c = CHR ''1'' \<or> c = CHR ''2'' \<or> c = CHR ''3'' \<or> c = CHR ''4'' \<or>
     c = CHR ''5'' \<or> c = CHR ''6'' \<or> c = CHR ''7'' \<or> c = CHR ''8'' \<or> c = CHR ''9''"
  by (auto simp: is_digit_def)






















subsection \<open>When the rendering returns\<close>

lemma on_success_Inr: "on_success r f = Inr y \<longleftrightarrow> (\<exists>x. r = Inr x \<and> f x = Inr y)"
  by (cases r) (simp_all add: on_success_def)

lemma getitem_Inr: "getitem xs i = Inr x \<longleftrightarrow> i < length xs \<and> x = xs ! i"
  by (auto simp: getitem_def)

lemma str_Inr: "str n = Inr s \<longleftrightarrow> printable n \<and> s = decimal n"
  by (auto simp: str_def printable_def)

lemma weekday_after_Inr:
  "weekday_after d k = Inr w \<longleftrightarrow>
     0 < toordinal d + k \<and> toordinal d + k \<le> MAXORDINAL \<and> w = nat ((toordinal d + k + 6) mod 7)"
  by (auto simp: weekday_after_def Let_def)

lemma on_success_InrE:
  assumes "on_success r f = Inr y"
  obtains x where "r = Inr x" and "f x = Inr y"
  using assms by (auto simp: on_success_Inr)

lemma render_svg_InrD:
  assumes "render_svg template highs lows icons day_one = Inr out"
  shows "3 < length icons \<and> 3 < length highs \<and> 3 < length lows \<and>
     printable (highs ! 0) \<and> printable (highs ! 1) \<and> printable (highs ! 2) \<and> printable (highs ! 3) \<and>
     printable (lows ! 0) \<and> printable (lows ! 1) \<and> printable (lows ! 2) \<and> printable (lows ! 3) \<and>
     0 < toordinal day_one + 2 \<and> toordinal day_one + 3 \<le> MAXORDINAL \<and>
     out = replace (replace (temperature_body template highs lows icons)
             ''DAY_THREE'' (days_of_week ! nat ((toordinal day_one + 2 + 6) mod 7)))
             ''DAY_FOUR'' (days_of_week ! nat ((toordinal day_one + 3 + 6) mod 7))"
  using assms unfolding render_svg_def
  apply (elim on_success_InrE)
  apply (simp only: getitem_Inr str_Inr weekday_after_Inr sum.inject temperature_body_def)
  done

lemma render_svg_InrI:
  assumes "3 < length icons" "3 < length highs" "3 < length lows"
    and "printable (highs ! 0)" "printable (highs ! 1)" "printable (highs ! 2)" "printable (highs ! 3)"
    and "printable (lows ! 0)" "printable (lows ! 1)" "printable (lows ! 2)" "printable (lows ! 3)"
    and "0 < toordinal day_one + 2" "toordinal day_one + 3 \<le> MAXORDINAL"
  shows "render_svg template highs lows icons day_one =
     Inr (replace (replace (temperature_body template highs lows icons)
             ''DAY_THREE'' (days_of_week ! nat ((toordinal day_one + 2 + 6) mod 7)))
             ''DAY_FOUR'' (days_of_week ! nat ((toordinal day_one + 3 + 6) mod 7)))"
proof -
  have g: "getitem icons 0 = Inr (icons ! 0)" "getitem icons 1 = Inr (icons ! 1)"
    "getitem icons 2 = Inr (icons ! 2)" "getitem icons 3 = Inr (icons ! 3)"
    "getitem highs 0 = Inr (highs ! 0)" "getitem highs 1 = Inr (highs ! 1)"
    "getitem highs 2 = Inr (highs ! 2)" "getitem highs 3 = Inr (highs ! 3)"
    "getitem lows 0 = Inr (lows ! 0)" "getitem lows 1 = Inr (lows ! 1)"
    "getitem lows 2 = Inr (lows ! 2)" "getitem lows 3 = Inr (lows ! 3)"
    using assms(1-3) by (auto simp: getitem_def)
  have s: "str (highs ! 0) = Inr (decimal (highs ! 0))" "str (highs ! 1) = Inr (decimal (highs ! 1))"
    "str (highs ! 2) = Inr (decimal (highs ! 2))" "str (highs ! 3) = Inr (decimal (highs ! 3))"
    "str (lows ! 0) = Inr (decimal (lows ! 0))" "str (lows ! 1) = Inr (decimal (lows ! 1))"
    "str (lows ! 2) = Inr (decimal (lows ! 2))" "str (lows ! 3) = Inr (decimal (lows ! 3))"
    using assms(4-11) by (simp_all add: str_Inr)
  have w: "weekday_after day_one 2 = Inr (nat ((toordinal day_one + 2 + 6) mod 7))"
    "weekday_after day_one 3 = Inr (nat ((toordinal day_one + 3 + 6) mod 7))"
    using assms(12,13) by (simp_all add: weekday_after_Inr)
  have o: "\<And>x f. on_success (Inr x) f = f x" by (simp add: on_success_def)
  show ?thesis
    unfolding render_svg_def temperature_body_def by (simp only: g s w o)
qed

lemma days_before_year_nonneg: "1 \<le> y \<Longrightarrow> 0 \<le> days_before_year y"
proof -
  assume "1 \<le> y"
  then have "(y - 1) div 100 \<le> (y - 1) div 4" "0 \<le> (y - 1) div 400" "0 \<le> y - 1"
    by (auto intro: zdiv_mono2 simp: pos_imp_zdiv_nonneg_iff)
  moreover from this have "0 \<le> (y - 1) * 365" by simp
  ultimately show ?thesis
    unfolding days_before_year_def by linarith
qed

lemma days_before_month_nonneg: "1 \<le> m \<Longrightarrow> m \<le> 12 \<Longrightarrow> 0 \<le> days_before_month y m"
proof -
  assume "1 \<le> m" "m \<le> 12"
  then have "m = 1 \<or> m = 2 \<or> m = 3 \<or> m = 4 \<or> m = 5 \<or> m = 6 \<or> m = 7 \<or> m = 8 \<or> m = 9 \<or>
      m = 10 \<or> m = 11 \<or> m = 12" by arith
  then show ?thesis by (auto simp: days_before_month_def)
qed

lemma toordinal_positive: "valid_date d \<Longrightarrow> 1 \<le> toordinal d"
  using days_before_year_nonneg [of "year d"] days_before_month_nonneg [of "month d" "year d"]
  by (simp add: valid_date_def toordinal_def)

lemma take_4: "3 < length xs \<Longrightarrow> take 4 xs = [xs ! 0, xs ! 1, xs ! 2, xs ! 3]"
  by (cases xs; cases "tl xs"; cases "tl (tl xs)"; cases "tl (tl (tl xs))")
    (auto simp: eval_nat_numeral)

subsection \<open>The weekday names\<close>

lemmas eval_ordinal = toordinal_def days_before_year_def days_before_month_def is_leap_def
  weekday_def days_of_week_def

text \<open>
  C6, amended. For a start date of the calendar, the rendering returns exactly when the
  date three days later is still a \<^verbatim>\<open>datetime\<close> (no later than 9999-12-31), the
  three lists have four entries and the eight temperatures can be printed. What it
  returns is the template after the icon and temperature replacements with
  \<^verbatim>\<open>DAY_THREE\<close> replaced by the weekday name of the date two days after the start
  date, and then \<^verbatim>\<open>DAY_FOUR\<close> by the name of the date three days after it. The
  names are those of the table from Monday to Sunday whose Saturday reads
  \<^verbatim>\<open>Caturday\<close>. The start time \<^verbatim>\<open>2024-03-10T00:00:00\<close> gives the start date
  2024-03-10, and the names of 2024-03-12 and 2024-03-13 are Tuesday and Wednesday.
\<close>

theorem weekday_names_rendered:
  assumes "valid_date day_one"
  shows "(\<forall>out day_three day_four.
            render_svg template highs lows icons day_one = Inr out \<and>
            toordinal day_three = toordinal day_one + 2 \<and>
            toordinal day_four = toordinal day_one + 3
          \<longrightarrow> out = replace (replace (temperature_body template highs lows icons)
                     ''DAY_THREE'' (days_of_week ! weekday day_three))
                     ''DAY_FOUR'' (days_of_week ! weekday day_four)) \<and>
         ((\<exists>out. render_svg template highs lows icons day_one = Inr out) \<longleftrightarrow>
            toordinal day_one + 3 \<le> MAXORDINAL \<and>
            3 < length icons \<and> 3 < length highs \<and> 3 < length lows \<and>
            list_all printable (take 4 highs) \<and> list_all printable (take 4 lows)) \<and>
         days_of_week =
           [''Monday'', ''Tuesday'', ''Wednesday'', ''Thursday'', ''Friday'', ''Caturday'', ''Sunday''] \<and>
         days_of_week ! weekday \<lparr>year = 2024, month = 3, day = 16\<rparr> = ''Caturday'' \<and>
         strptime_ymd (take 10 ''2024-03-10T00:00:00'') = Inr \<lparr>year = 2024, month = 3, day = 10\<rparr> \<and>
         toordinal \<lparr>year = 2024, month = 3, day = 12\<rparr> =
           toordinal \<lparr>year = 2024, month = 3, day = 10\<rparr> + 2 \<and>
         toordinal \<lparr>year = 2024, month = 3, day = 13\<rparr> =
           toordinal \<lparr>year = 2024, month = 3, day = 10\<rparr> + 3 \<and>
         days_of_week ! weekday \<lparr>year = 2024, month = 3, day = 12\<rparr> = ''Tuesday'' \<and>
         days_of_week ! weekday \<lparr>year = 2024, month = 3, day = 13\<rparr> = ''Wednesday''"
proof -
  have pos: "0 < toordinal day_one + 2" using toordinal_positive [OF assms] by simp
  have a: "out = replace (replace (temperature_body template highs lows icons)
                     ''DAY_THREE'' (days_of_week ! weekday day_three))
                     ''DAY_FOUR'' (days_of_week ! weekday day_four)"
    if "render_svg template highs lows icons day_one = Inr out \<and>
        toordinal day_three = toordinal day_one + 2 \<and>
        toordinal day_four = toordinal day_one + 3" for out day_three day_four
    using render_svg_InrD [of template highs lows icons day_one out] that
    by (simp add: weekday_def)
  have b: "(\<exists>out. render_svg template highs lows icons day_one = Inr out) \<longleftrightarrow>
            toordinal day_one + 3 \<le> MAXORDINAL \<and>
            3 < length icons \<and> 3 < length highs \<and> 3 < length lows \<and>
            list_all printable (take 4 highs) \<and> list_all printable (take 4 lows)"
  proof
    assume "\<exists>out. render_svg template highs lows icons day_one = Inr out"
    then obtain out where "render_svg template highs lows icons day_one = Inr out" ..
    from render_svg_InrD [OF this] show "toordinal day_one + 3 \<le> MAXORDINAL \<and>
            3 < length icons \<and> 3 < length highs \<and> 3 < length lows \<and>
            list_all printable (take 4 highs) \<and> list_all printable (take 4 lows)"
      by (simp add: take_4)
  next
    assume r: "toordinal day_one + 3 \<le> MAXORDINAL \<and>
            3 < length icons \<and> 3 < length highs \<and> 3 < length lows \<and>
            list_all printable (take 4 highs) \<and> list_all printable (take 4 lows)"
    then have p: "printable (highs ! 0)" "printable (highs ! 1)" "printable (highs ! 2)"
      "printable (highs ! 3)" "printable (lows ! 0)" "printable (lows ! 1)"
      "printable (lows ! 2)" "printable (lows ! 3)"
      by (auto simp: take_4)
    from r have l: "3 < length icons" "3 < length highs" "3 < length lows"
      and m: "toordinal day_one + 3 \<le> MAXORDINAL" by simp_all
    show "\<exists>out. render_svg template highs lows icons day_one = Inr out"
      using render_svg_InrI [OF l p pos m] by blast
  qed
  have c: "days_of_week =
      [''Monday'', ''Tuesday'', ''Wednesday'', ''Thursday'', ''Friday'', ''Caturday'', ''Sunday'']"
    by (simp add: days_of_week_def)
  have d: "days_of_week ! weekday \<lparr>year = 2024, month = 3, day = 16\<rparr> = ''Caturday''"
    "toordinal \<lparr>year = 2024, month = 3, day = 12\<rparr> =
       toordinal \<lparr>year = 2024, month = 3, day = 10\<rparr> + 2"
    "toordinal \<lparr>year = 2024, month = 3, day = 13\<rparr> =
       toordinal \<lparr>year = 2024, month = 3, day = 10\<rparr> + 3"
    "days_of_week ! weekday \<lparr>year = 2024, month = 3, day = 12\<rparr> = ''Tuesday''"
    "days_of_week ! weekday \<lparr>year = 2024, month = 3, day = 13\<rparr> = ''Wednesday''"
    by (simp_all add: eval_ordinal)
  have e: "strptime_ymd (take 10 ''2024-03-10T00:00:00'') =
      Inr \<lparr>year = 2024, month = 3, day = 10\<rparr>"
    by (simp add: eval_date)
  show ?thesis using a b c d e by blast
qed

lemmas eval_render = render_svg_def on_success_def getitem_def str_def decimal_def
  decimal_digits.simps int_max_str_digits_def weekday_after_def MAXORDINAL_def eval_ordinal

text \<open>
  The feed may name 9999-12-30 as its first day; two days later there is no
  \<^verbatim>\<open>datetime\<close>, and the rendering raises instead of substituting.
\<close>

theorem weekday_overflow_counterexample:
  "strptime_ymd ''9999-12-30'' = Inr \<lparr>year = 9999, month = 12, day = 30\<rparr> \<and>
   render_svg ''DAY_THREE'' [70, 72, 68, 65] [55, 58, 50, 48] [''few'', ''bkn'', ''na'', ''rain'']
     \<lparr>year = 9999, month = 12, day = 30\<rparr> = Inl OverflowError"
proof -
  have "strptime_ymd ''9999-12-30'' = Inr \<lparr>year = 9999, month = 12, day = 30\<rparr>"
    by (simp add: eval_date)
  moreover have "render_svg ''DAY_THREE'' [70, 72, 68, 65] [55, 58, 50, 48]
      [''few'', ''bkn'', ''na'', ''rain''] \<lparr>year = 9999, month = 12, day = 30\<rparr> = Inl OverflowError"
    by (simp add: eval_render)
  ultimately show ?thesis by simp
qed

lemma sample_render:
  "render_svg ''DAY_THREE DAY_FOUR'' [70, 72, 68, 65] [55, 58, 50, 48]
     [''few'', ''bkn'', ''na'', ''rain''] \<lparr>year = 2024, month = 6, day = 3\<rparr> =
   Inr ''Wednesday Thursday''"
  by (simp add: eval_render)

theorem weekday_names_rendered_witness:
  "valid_date \<lparr>year = 2024, month = 6, day = 3\<rparr> \<and>
   render_svg ''DAY_THREE DAY_FOUR'' [70, 72, 68, 65] [55, 58, 50, 48]
     [''few'', ''bkn'', ''na'', ''rain''] \<lparr>year = 2024, month = 6, day = 3\<rparr> =
     Inr ''Wednesday Thursday'' \<and>
   ''Wednesday Thursday'' =
     replace (replace (temperature_body ''DAY_THREE DAY_FOUR'' [70, 72, 68, 65] [55, 58, 50, 48]
         [''few'', ''bkn'', ''na'', ''rain''])
       ''DAY_THREE'' (days_of_week ! weekday \<lparr>year = 2024, month = 6, day = 5\<rparr>))
       ''DAY_FOUR'' (days_of_week ! weekday \<lparr>year = 2024, month = 6, day = 6\<rparr>)"
proof -
  have v: "valid_date \<lparr>year = 2024, month = 6, day = 3\<rparr>"
    by (simp add: valid_date_def days_in_month_def)
  have o: "toordinal \<lparr>year = 2024, month = 6, day = 5\<rparr> =
      toordinal \<lparr>year = 2024, month = 6, day = 3\<rparr> + 2"
    "toordinal \<lparr>year = 2024, month = 6, day = 6\<rparr> =
      toordinal \<lparr>year = 2024, month = 6, day = 3\<rparr> + 3"
    by (simp_all add: eval_ordinal)
  note a = weekday_names_rendered [OF v, THEN conjunct1, rule_format,
      of "''DAY_THREE DAY_FOUR''" "[70, 72, 68, 65]" "[55, 58, 50, 48]"
        "[''few'', ''bkn'', ''na'', ''rain'']" "''Wednesday Thursday''"
        "\<lparr>year = 2024, month = 6, day = 5\<rparr>" "\<lparr>year = 2024, month = 6, day = 6\<rparr>"]
  have "''Wednesday Thursday'' =
     replace (replace (temperature_body ''DAY_THREE DAY_FOUR'' [70, 72, 68, 65] [55, 58, 50, 48]
         [''few'', ''bkn'', ''na'', ''rain''])
       ''DAY_THREE'' (days_of_week ! weekday \<lparr>year = 2024, month = 6, day = 5\<rparr>))
       ''DAY_FOUR'' (days_of_week ! weekday \<lparr>year = 2024, month = 6, day = 6\<rparr>)"
    by (rule a) (simp only: sample_render o simp_thms)
  then show ?thesis using v sample_render by simp
qed

subsection \<open>Replacing around a word\<close>

lemma prefix_appendD: "prefix xs (ys @ zs) \<Longrightarrow> prefix xs ys \<or> prefix ys xs"
  by (auto simp: prefix_append)

lemma apartD:
  "apart old m \<Longrightarrow> i < length m \<Longrightarrow> \<not> prefix old (drop i m @ b)"
  using prefix_appendD [of old "drop i m" b] by (auto simp: apart_def list_all_iff)

lemma replace_Nil_old [simp]: "replace [] old new = (if old = [] then new else [])"
  by simp

lemma replace_not_prefix:
  "old \<noteq> [] \<Longrightarrow> \<not> prefix old (c # cs) \<Longrightarrow> replace (c # cs) old new = c # replace cs old new"
  by simp

lemma replace_prefix:
  "old \<noteq> [] \<Longrightarrow> replace (old @ s) old new = new @ replace s old new"
  by (cases old) simp_all

lemma replace_skip:
  assumes "old \<noteq> []" and "\<forall>i<length m. \<not> prefix old (drop i m @ b)"
  shows "replace (m @ b) old new = m @ replace b old new"
  using assms(2)
proof (induction m)
  case Nil
  then show ?case by simp
next
  case (Cons c cs)
  from Cons.prems have "\<not> prefix old ((c # cs) @ b)" by (metis drop0 length_greater_0_conv list.discI)
  moreover have "\<forall>i<length cs. \<not> prefix old (drop i cs @ b)"
  proof (intro allI impI)
    fix i assume "i < length cs"
    then have "Suc i < length (c # cs)" by simp
    from Cons.prems [rule_format, OF this] show "\<not> prefix old (drop i cs @ b)" by simp
  qed
  ultimately show ?case using Cons.IH assms(1) by simp
qed

lemma replace_frame:
  assumes "old \<noteq> []" and "apart old m" and "apart m old"
  shows "replace (a @ m @ b) old new = replace a old new @ m @ replace b old new"
proof (induction "length a" arbitrary: a rule: less_induct)
  case less
  show ?case
  proof (cases a)
    case Nil
    then show ?thesis
      using replace_skip [OF assms(1), of m b new] apartD [OF assms(2)] assms(1) by simp
  next
    case (Cons c cs)
    show ?thesis
    proof (cases "prefix old (a @ m @ b)")
      case False
      then have "\<not> prefix old a" by (auto simp: prefix_def)
      then show ?thesis using False Cons assms(1) less [of cs] by simp
    next
      case True
      show ?thesis
      proof (cases "length old \<le> length a")
        case le: True
        then have p: "prefix old a" using True by (auto simp: prefix_def append_eq_append_conv2)
        then obtain r where r: "a = old @ r" by (auto simp: prefix_def)
        then have "length r < length a" using assms(1) by simp
        from less [OF this] show ?thesis using r assms(1) by (simp add: replace_prefix)
      next
        case gt: False
        then have j: "length a < length old" by simp
        from True obtain z where z: "a @ m @ b = old @ z" by (auto simp: prefix_def)
        then have "drop (length a) old @ z = m @ b"
          using j by (metis append_eq_conv_conj drop_append drop_all append_Nil less_imp_le_nat
              diff_is_0_eq' drop0)
        then have "prefix (drop (length a) old) m \<or> prefix m (drop (length a) old)"
          by (metis prefix_def prefix_same_cases)
        then show ?thesis
          using assms(3) j by (auto simp: apart_def list_all_iff)
      qed
    qed
  qed
qed

lemma placeholders_apart_from_day_one_two:
  "list_all (\<lambda>p. p \<noteq> [] \<and> apart p ''DAY_ONE'' \<and> apart ''DAY_ONE'' p \<and>
      apart p ''DAY_TWO'' \<and> apart ''DAY_TWO'' p) placeholders"
  by (simp add: placeholders_def apart_def upt_rec)

lemma replace_frame_placeholder:
  assumes "p \<in> set placeholders" and "m = ''DAY_ONE'' \<or> m = ''DAY_TWO''"
  shows "replace (a @ m @ b) p new = replace a p new @ m @ replace b p new"
proof -
  from assms have "p \<noteq> [] \<and> apart p m \<and> apart m p"
    using placeholders_apart_from_day_one_two by (auto simp: list_all_iff)
  then show ?thesis using replace_frame by blast
qed

lemma replace_absent:
  assumes "old \<noteq> []" and "\<not> sublist old s"
  shows "replace s old new = s"
  using assms(2)
proof (induction s)
  case Nil
  then show ?case using assms(1) by simp
next
  case (Cons c cs)
  then have "\<not> prefix old (c # cs)" "\<not> sublist old cs"
    by (auto simp: sublist_Cons_right)
  then show ?case using Cons.IH assms(1) by simp
qed

lemma in_placeholders:
  "''ICON_ONE'' \<in> set placeholders" "''ICON_TWO'' \<in> set placeholders"
  "''ICON_THREE'' \<in> set placeholders" "''ICON_FOUR'' \<in> set placeholders"
  "''HIGH_ONE'' \<in> set placeholders" "''HIGH_TWO'' \<in> set placeholders"
  "''HIGH_THREE'' \<in> set placeholders" "''HIGH_FOUR'' \<in> set placeholders"
  "''LOW_ONE'' \<in> set placeholders" "''LOW_TWO'' \<in> set placeholders"
  "''LOW_THREE'' \<in> set placeholders" "''LOW_FOUR'' \<in> set placeholders"
  "''DAY_THREE'' \<in> set placeholders" "''DAY_FOUR'' \<in> set placeholders"
  by (simp_all add: placeholders_def)

lemma render_svg_frame:
  assumes "render_svg (a @ m @ b) highs lows icons day_one = Inr out"
    and m: "m = ''DAY_ONE'' \<or> m = ''DAY_TWO''"
  shows "\<exists>x y. render_svg a highs lows icons day_one = Inr x \<and>
           render_svg b highs lows icons day_one = Inr y \<and> out = x @ m @ y"
proof -
  note d = render_svg_InrD [OF assms(1)]
  note f = in_placeholders [THEN replace_frame_placeholder [OF _ m]]
  have l: "3 < length icons" "3 < length highs" "3 < length lows"
    and p: "printable (highs ! 0)" "printable (highs ! 1)" "printable (highs ! 2)"
      "printable (highs ! 3)" "printable (lows ! 0)" "printable (lows ! 1)"
      "printable (lows ! 2)" "printable (lows ! 3)"
    and o: "0 < toordinal day_one + 2" "toordinal day_one + 3 \<le> MAXORDINAL"
    using d by simp_all
  have out: "out = replace (replace (temperature_body (a @ m @ b) highs lows icons)
             ''DAY_THREE'' (days_of_week ! nat ((toordinal day_one + 2 + 6) mod 7)))
             ''DAY_FOUR'' (days_of_week ! nat ((toordinal day_one + 3 + 6) mod 7))"
    using d by simp
  have "out = replace (replace (temperature_body a highs lows icons)
             ''DAY_THREE'' (days_of_week ! nat ((toordinal day_one + 2 + 6) mod 7)))
             ''DAY_FOUR'' (days_of_week ! nat ((toordinal day_one + 3 + 6) mod 7)) @ m @
           replace (replace (temperature_body b highs lows icons)
             ''DAY_THREE'' (days_of_week ! nat ((toordinal day_one + 2 + 6) mod 7)))
             ''DAY_FOUR'' (days_of_week ! nat ((toordinal day_one + 3 + 6) mod 7))"
    unfolding out temperature_body_def by (simp only: f)
  then show ?thesis
    using render_svg_InrI [OF l p o, of a] render_svg_InrI [OF l p o, of b] by simp
qed

lemma render_svg_absent:
  assumes "render_svg template highs lows icons day_one = Inr out"
    and "\<forall>p\<in>set placeholders. \<not> sublist p template"
  shows "out = template"
proof -
  have a: "replace template p new = template" if "p \<in> set placeholders" for p new
  proof -
    from that have "p \<noteq> []" by (auto simp: placeholders_def)
    then show ?thesis using replace_absent assms(2) that by blast
  qed
  note f = in_placeholders [THEN a]
  have "out = replace (replace (temperature_body template highs lows icons)
             ''DAY_THREE'' (days_of_week ! nat ((toordinal day_one + 2 + 6) mod 7)))
             ''DAY_FOUR'' (days_of_week ! nat ((toordinal day_one + 3 + 6) mod 7))"
    using render_svg_InrD [OF assms(1)] by simp
  then show ?thesis unfolding temperature_body_def by (simp only: f)
qed

text \<open>
  C8. \<^verbatim>\<open>DAY_ONE\<close> and \<^verbatim>\<open>DAY_TWO\<close> are never substituted: around an occurrence
  of either in the template the rendering works on the text before it and on the text after
  it, and the occurrence itself stands in the output as it was. A template in which none
  of the fourteen placeholders occurs is returned unchanged.
\<close>

theorem day_one_day_two_kept:
  assumes "render_svg template highs lows icons day_one = Inr out"
  shows "(\<forall>a b. template = a @ ''DAY_ONE'' @ b \<longrightarrow>
            (\<exists>x y. render_svg a highs lows icons day_one = Inr x \<and>
               render_svg b highs lows icons day_one = Inr y \<and> out = x @ ''DAY_ONE'' @ y)) \<and>
         (\<forall>a b. template = a @ ''DAY_TWO'' @ b \<longrightarrow>
            (\<exists>x y. render_svg a highs lows icons day_one = Inr x \<and>
               render_svg b highs lows icons day_one = Inr y \<and> out = x @ ''DAY_TWO'' @ y)) \<and>
         ((\<forall>p\<in>set placeholders. \<not> sublist p template) \<longrightarrow> out = template)"
  using assms render_svg_frame [of _ "''DAY_ONE''"] render_svg_frame [of _ "''DAY_TWO''"]
    render_svg_absent [OF assms]
  by blast

theorem day_one_day_two_kept_witness:
  "render_svg ''aDAY_ONEbHIGH_ONE'' [70, 72, 68, 65] [55, 58, 50, 48]
     [''few'', ''bkn'', ''na'', ''rain''] \<lparr>year = 2024, month = 6, day = 3\<rparr> = Inr ''aDAY_ONEb70'' \<and>
   (\<exists>x y. render_svg ''a'' [70, 72, 68, 65] [55, 58, 50, 48]
       [''few'', ''bkn'', ''na'', ''rain''] \<lparr>year = 2024, month = 6, day = 3\<rparr> = Inr x \<and>
     render_svg ''bHIGH_ONE'' [70, 72, 68, 65] [55, 58, 50, 48]
       [''few'', ''bkn'', ''na'', ''rain''] \<lparr>year = 2024, month = 6, day = 3\<rparr> = Inr y \<and>
     ''aDAY_ONEb70'' = x @ ''DAY_ONE'' @ y) \<and>
   render_svg ''plain DAY_TWO'' [70, 72, 68, 65] [55, 58, 50, 48]
     [''few'', ''bkn'', ''na'', ''rain''] \<lparr>year = 2024, month = 6, day = 3\<rparr> = Inr ''plain DAY_TWO''"
proof -
  let ?r = "\<lambda>t. render_svg t [70, 72, 68, 65] [55, 58, 50, 48]
     [''few'', ''bkn'', ''na'', ''rain''] \<lparr>year = 2024, month = 6, day = 3\<rparr>"
  have 1: "?r ''aDAY_ONEbHIGH_ONE'' = Inr ''aDAY_ONEb70''"
    by (simp add: eval_render)
  have s: "''aDAY_ONEbHIGH_ONE'' = ''a'' @ ''DAY_ONE'' @ ''bHIGH_ONE''" by simp
  have 2: "\<exists>x y. ?r ''a'' = Inr x \<and> ?r ''bHIGH_ONE'' = Inr y \<and> ''aDAY_ONEb70'' = x @ ''DAY_ONE'' @ y"
    using day_one_day_two_kept [OF 1, THEN conjunct1, rule_format, OF s] .
  obtain out where 3: "?r ''plain DAY_TWO'' = Inr out"
    using render_svg_InrI [of "[''few'', ''bkn'', ''na'', ''rain'']" "[70, 72, 68, 65]"
        "[55, 58, 50, 48]" "\<lparr>year = 2024, month = 6, day = 3\<rparr>" "''plain DAY_TWO''"]
    by (simp add: printable_def decimal_digits.simps int_max_str_digits_def MAXORDINAL_def
        eval_ordinal)
  have "\<forall>p\<in>set placeholders. \<not> sublist p ''plain DAY_TWO''"
    by (simp add: placeholders_def sublist_Cons_right)
  with day_one_day_two_kept [OF 3] have "out = ''plain DAY_TWO''" by blast
  with 1 2 3 show ?thesis by simp
qed

subsection \<open>What the missing builder class costs\<close>


text \<open>
  C9. A temperature that is not a number should make \<^verbatim>\<open>parse_weather\<close> fail in the
  integer conversion. The rest of the function would fail there for the document of such
  a feed; the error that \<^verbatim>\<open>parse_weather\<close> raises is the one of the missing builder
  class, before any conversion.
\<close>

theorem bad_temperature_feed_raises:
  "parse_weather parseString weather_xml = Inl ModuleAttributeError \<and>
   ModuleAttributeError \<noteq> IntValueError \<and> ModuleAttributeError \<noteq> IntTypeError \<and>
   parse_document bad_temperature_feed = Inl IntValueError"
proof -
  have "temperatures bad_temperature_feed = Inl IntValueError"
    by (simp add: bad_temperature_feed_def eval_temperatures)
  then have "parse_document bad_temperature_feed = Inl IntValueError"
    by (simp add: parse_document_def)
  then show ?thesis using parse_weather_raises by simp
qed

text \<open>
  C10. An icon link that ends in \<^verbatim>\<open>12345.png\<close> should give the token \<^verbatim>\<open>na\<close> for
  its day. The icon loop would append \<^verbatim>\<open>na\<close> for it; \<^verbatim>\<open>parse_weather\<close> raises
  before the loop and gives no token at all.
\<close>

theorem digits_only_feed_raises:
  "parse_weather parseString weather_xml = Inl ModuleAttributeError \<and>
   all_icons [Element ''icon-link'' [] [Text ''x/12345.png'']] = Inr [''na'', ''na'', ''na'', ''na'']"
proof -
  have "all_icons [Element ''icon-link'' [] [Text ''x/12345.png'']] =
      Inr [''na'', ''na'', ''na'', ''na'']"
    by (simp add: all_icons_def upt_NUM_DAYS eval_icon)
  then show ?thesis using parse_weather_raises by simp
qed

subsection \<open>The order of the replacements\<close>

lemma substitute_found:
  assumes "find (\<lambda>(old, new). old \<noteq> [] \<and> prefix old s) steps = Some (p, x)"
  shows "\<exists>r. s = p @ r \<and> substitute steps s = x @ substitute steps r \<and> length r < length s \<and>
           (p, x) \<in> set steps \<and> p \<noteq> []"
proof -
  from assms have in_steps: "(p, x) \<in> set steps" and ne: "p \<noteq> []" and pre: "prefix p s"
    by (auto simp: find_Some_iff in_set_conv_nth)
  from pre obtain r where r: "s = p @ r" by (auto simp: prefix_def)
  have "s \<noteq> []" using ne r by simp
  then obtain c cs where s: "s = c # cs" by (cases s) auto
  have "drop (length p - 1) cs = r"
    using r s ne by (cases p) auto
  then have "substitute steps s = x @ substitute steps r"
    using assms s by simp
  then show ?thesis using r ne in_steps by auto
qed

lemma substitute_not_found:
  assumes "find (\<lambda>(old, new). old \<noteq> [] \<and> prefix old (c # cs)) steps = None"
  shows "substitute steps (c # cs) = c # substitute steps cs"
  using assms by simp

lemma prefix_substitute:
  assumes "\<forall>(p, x)\<in>set steps. last q \<notin> set x \<and> \<not> sublist x q"
  shows "suffix q2 q \<Longrightarrow> prefix q2 (substitute steps s) \<Longrightarrow> prefix q2 s"
proof (induction "length s" arbitrary: s q2 rule: less_induct)
  case less
  show ?case
  proof (cases "q2 = []")
    case True
    then show ?thesis by simp
  next
    case ne: False
    show ?thesis
    proof (cases s)
      case Nil
      then show ?thesis using less.prems by simp
    next
      case (Cons c cs)
      show ?thesis
      proof (cases "find (\<lambda>(old, new). old \<noteq> [] \<and> prefix old s) steps")
        case None
        then have e: "substitute steps s = c # substitute steps cs"
          using Cons by simp
        with less.prems(2) ne obtain q2' where q2: "q2 = c # q2'" and
          p: "prefix q2' (substitute steps cs)"
          by (cases q2) auto
        have "suffix q2' q" using less.prems(1) q2 by (metis suffix_ConsD)
        from less.hyps [OF _ this p] Cons have "prefix q2' cs" by simp
        then show ?thesis using q2 Cons by simp
      next
        case (Some a)
        obtain p x where a: "a = (p, x)" by (cases a)
        from substitute_found [OF Some [unfolded a]] obtain r where
          r: "substitute steps s = x @ substitute steps r" and in_steps: "(p, x) \<in> set steps"
          by blast
        from assms in_steps have x: "last q \<notin> set x" "\<not> sublist x q" by auto
        from less.prems(2) r have "prefix q2 x \<or> prefix x q2"
          by (metis prefix_same_cases prefixI)
        then show ?thesis
        proof
          assume "prefix q2 x"
          then have "last q2 \<in> set x" using ne by (metis last_in_set set_mono_prefix subsetD)
          moreover have "last q2 = last q" using less.prems(1) ne by (auto simp: suffix_def)
          ultimately show ?thesis using x(1) by simp
        next
          assume "prefix x q2"
          then have "sublist x q" using less.prems(1)
            by (meson prefix_imp_sublist sublist_order.order_trans suffix_imp_sublist)
          then show ?thesis using x(2) by simp
        qed
      qed
    qed
  qed
qed

lemma substitute_skip:
  assumes "\<forall>(p, x)\<in>set steps. apart p m"
  shows "substitute steps (m @ b) = m @ substitute steps b"
proof -
  have "substitute steps (drop i m @ b) = drop i m @ substitute steps b" if "i \<le> length m" for i
    using that
  proof (induction "length m - i" arbitrary: i)
    case 0
    then show ?case by simp
  next
    case (Suc n)
    then have i: "i < length m" by simp
    then obtain c where c: "drop i m = c # drop (Suc i) m"
      by (metis Cons_nth_drop_Suc)
    have "find (\<lambda>(old, new). old \<noteq> [] \<and> prefix old (drop i m @ b)) steps = None"
      using assms apartD [OF _ i] by (fastforce simp: find_None_iff)
    then have "substitute steps (drop i m @ b) = c # substitute steps (drop (Suc i) m @ b)"
      unfolding c by simp
    moreover have "substitute steps (drop (Suc i) m @ b) = drop (Suc i) m @ substitute steps b"
      using Suc by (intro Suc.hyps(1)) simp_all
    ultimately show ?case using c by simp
  qed
  from this [of 0] show ?thesis by simp
qed

lemma replace_substitute:
  assumes "q \<noteq> []" and "\<forall>(p, x)\<in>set steps. apart p q \<and> inert x q"
  shows "replace (substitute steps s) q y = substitute ((q, y) # steps) s"
proof (induction "length s" arbitrary: s rule: less_induct)
  case less
  let ?P = "\<lambda>s (old, new). old \<noteq> [] \<and> prefix old s"
  show ?case
  proof (cases s)
    case Nil
    then show ?thesis using assms(1) by simp
  next
    case (Cons c cs)
    show ?thesis
    proof (cases "prefix q s")
      case True
      then obtain r where r: "s = q @ r" by (auto simp: prefix_def)
      have "find (?P s) ((q, y) # steps) = Some (q, y)"
        using True assms(1) by simp
      from substitute_found [OF this] have
        rhs: "substitute ((q, y) # steps) s = y @ substitute ((q, y) # steps) r"
        using r by auto
      have "substitute steps s = q @ substitute steps r"
        unfolding r using assms(2) by (intro substitute_skip) auto
      then have "replace (substitute steps s) q y = y @ replace (substitute steps r) q y"
        using assms(1) by (simp add: replace_prefix)
      moreover have "length r < length s" using r assms(1) by simp
      ultimately show ?thesis using less.hyps rhs by simp
    next
      case np: False
      then have f: "find (?P s) ((q, y) # steps) = find (?P s) steps" by simp
      show ?thesis
      proof (cases "find (?P s) steps")
        case None
        then have lhs: "substitute steps s = c # substitute steps cs"
          and rhs: "substitute ((q, y) # steps) s = c # substitute ((q, y) # steps) cs"
          using f Cons by simp_all
        have "\<not> prefix q (c # substitute steps cs)"
        proof
          assume a: "prefix q (c # substitute steps cs)"
          then obtain q' where q: "q = c # q'" and p: "prefix q' (substitute steps cs)"
            using assms(1) by (cases q) auto
          have "suffix q' q" using q by (simp add: suffix_def)
          moreover have "\<forall>(p, x)\<in>set steps. last q \<notin> set x \<and> \<not> sublist x q"
            using assms(2) by (auto simp: inert_def)
          ultimately have "prefix q' cs" using prefix_substitute p by blast
          then show False using np q Cons by simp
        qed
        then have "replace (substitute steps s) q y = c # replace (substitute steps cs) q y"
          using lhs assms(1) by simp
        then show ?thesis using less.hyps [of cs] rhs Cons by simp
      next
        case (Some a)
        obtain p x where a: "a = (p, x)" by (cases a)
        from substitute_found [OF Some [unfolded a]] obtain r where r: "s = p @ r"
          and lhs: "substitute steps s = x @ substitute steps r"
          and len: "length r < length s" and in_steps: "(p, x) \<in> set steps" and "p \<noteq> []"
          by blast
        from substitute_found [OF f [unfolded Some a]] r
        have rhs: "substitute ((q, y) # steps) s = x @ substitute ((q, y) # steps) r"
          by auto
        have hd: "hd q \<notin> set x" using assms(2) in_steps by (auto simp: inert_def)
        have "\<forall>i<length x. \<not> prefix q (drop i x @ substitute steps r)"
        proof (intro allI impI notI)
          fix i assume i: "i < length x" and "prefix q (drop i x @ substitute steps r)"
          then have "hd q = hd (drop i x @ substitute steps r)"
            using assms(1) by (metis hd_append2 prefix_def)
          then have "hd q = x ! i" using i by (simp add: hd_drop_conv_nth)
          then show False using hd i by simp
        qed
        from replace_skip [OF assms(1) this]
        have "replace (substitute steps s) q y = x @ replace (substitute steps r) q y"
          using lhs by simp
        then show ?thesis using less.hyps [OF len] rhs by simp
      qed
    qed
  qed
qed

lemma compatibleD:
  assumes "compatible steps" and "(q, y) \<in> set steps"
  shows "q \<noteq> []"
    and "(p, x) \<in> set steps \<Longrightarrow> p \<noteq> q \<Longrightarrow> apart p q \<and> inert x q"
proof -
  from assms have a: "fst (q, y) \<noteq> [] \<and>
      (\<forall>b\<in>set steps. fst b \<noteq> fst (q, y) \<longrightarrow> apart (fst b) (fst (q, y)) \<and> inert (snd b) (fst (q, y)))"
    unfolding compatible_def by blast
  then show "q \<noteq> []" by simp
  show "apart p q \<and> inert x q" if "(p, x) \<in> set steps" "p \<noteq> q"
    using a that by (metis fst_conv snd_conv)
qed

lemma apart_0: "apart old m \<Longrightarrow> m \<noteq> [] \<Longrightarrow> \<not> prefix old m \<and> \<not> prefix m old"
proof -
  assume a: "apart old m" and "m \<noteq> []"
  then have "0 \<in> set [0..<length m]" by simp
  with a have "\<not> prefix old (drop 0 m) \<and> \<not> prefix (drop 0 m) old"
    unfolding apart_def list_all_iff by blast
  then show ?thesis by simp
qed

lemma substitute_Nil: "substitute [] s = s"
  by (induction s) simp_all

lemma replace_all_snoc: "replace_all (ps @ [(q, y)]) s = replace (replace_all ps s) q y"
  by (simp add: replace_all_def)

lemma compatible_butlast: "compatible (ps @ [a]) \<Longrightarrow> compatible ps"
  by (auto simp: compatible_def)

lemma replace_all_substitute:
  "compatible steps \<Longrightarrow> replace_all steps s = substitute (rev steps) s"
proof (induction steps rule: rev_induct)
  case Nil
  then show ?case by (simp add: replace_all_def substitute_Nil)
next
  case (snoc a ps)
  obtain q y where a: "a = (q, y)" by (cases a)
  have ih: "replace_all ps s = substitute (rev ps) s"
    using snoc compatible_butlast by blast
  have qm: "(q, y) \<in> set (ps @ [a])" using a by simp
  have q: "q \<noteq> []" using compatibleD(1) [OF snoc.prems qm] .
  have d: "distinct (map fst ps @ [q])" using snoc.prems a by (simp add: compatible_def)
  have "\<forall>(p, x)\<in>set (rev ps). apart p q \<and> inert x q"
  proof (clarify)
    fix p x assume m: "(p, x) \<in> set (rev ps)"
    then have "p \<in> set (map fst ps)" by force
    then have "p \<noteq> q" using d by auto
    moreover have "(p, x) \<in> set (ps @ [a])" using m by simp
    ultimately show "apart p q \<and> inert x q"
      using compatibleD(2) [OF snoc.prems qm] by blast
  qed
  from replace_substitute [OF q this] show ?case
    using ih a by (simp add: replace_all_snoc)
qed

lemma find_unique:
  assumes "set xs = set ys" and "\<forall>a\<in>set xs. \<forall>b\<in>set xs. P a \<and> P b \<longrightarrow> a = b"
  shows "find P xs = find P ys"
proof (cases "find P xs")
  case None
  then have "\<forall>a\<in>set ys. \<not> P a" using assms(1) by (auto simp: find_None_iff)
  then have "find P ys = None" by (simp add: find_None_iff)
  then show ?thesis using None by simp
next
  case (Some a)
  then have a: "a \<in> set xs" "P a" by (auto simp: find_Some_iff)
  then have "find P ys \<noteq> None" using assms(1) by (auto simp: find_None_iff)
  then obtain b where b: "find P ys = Some b" by auto
  then have "b \<in> set ys" "P b" by (auto simp: find_Some_iff)
  then have "a = b" using a assms by auto
  then show ?thesis using Some b by simp
qed

lemma compatible_unique_match:
  assumes "compatible steps" and "(p, x) \<in> set steps" and "(p', x') \<in> set steps"
    and "p \<noteq> [] \<and> prefix p s" and "p' \<noteq> [] \<and> prefix p' s"
  shows "(p, x) = (p', x')"
proof -
  have "p = p'"
  proof (rule ccontr)
    assume ne: "p \<noteq> p'"
    then have "apart p p'" using compatibleD(2) [OF assms(1) assms(3) assms(2)] by blast
    then have "\<not> prefix p p' \<and> \<not> prefix p' p"
      using assms(5) apart_0 by blast
    then show False using assms(4,5) prefix_same_cases by blast
  qed
  moreover have "distinct (map fst steps)" using assms(1) by (simp add: compatible_def)
  ultimately show ?thesis using assms(2,3) by (simp add: eq_key_imp_eq_value)
qed

lemma substitute_perm:
  assumes "compatible steps" and "set steps = set steps'"
  shows "substitute steps s = substitute steps' s"
proof (induction "length s" arbitrary: s rule: less_induct)
  case less
  show ?case
  proof (cases s)
    case Nil
    then show ?thesis by simp
  next
    case (Cons c cs)
    let ?P = "\<lambda>(old, new). old \<noteq> [] \<and> prefix old s"
    have "\<forall>a\<in>set steps. \<forall>b\<in>set steps. ?P a \<and> ?P b \<longrightarrow> a = b"
    proof (intro ballI impI)
      fix a b assume "a \<in> set steps" "b \<in> set steps" "?P a \<and> ?P b"
      then show "a = b"
        using compatible_unique_match [OF assms(1), of "fst a" "snd a" "fst b" "snd b" s]
        by (simp add: case_prod_beta)
    qed
    from find_unique [OF assms(2) this] have f: "find ?P steps = find ?P steps'" .
    show ?thesis
    proof (cases "find ?P steps")
      case None
      then show ?thesis using f Cons less.hyps [of cs] by simp
    next
      case (Some a)
      obtain p x where a: "a = (p, x)" by (cases a)
      from substitute_found [OF Some [unfolded a]] obtain r where r: "s = p @ r"
        "substitute steps s = x @ substitute steps r" "length r < length s" by blast
      from substitute_found [OF f [unfolded Some a, symmetric]] r(1)
      have "substitute steps' s = x @ substitute steps' r" by auto
      then show ?thesis using r less.hyps [of r] by simp
    qed
  qed
qed

lemma compatible_perm: "compatible steps \<Longrightarrow> mset steps' = mset steps \<Longrightarrow> compatible steps'"
proof -
  assume c: "compatible steps" and m: "mset steps' = mset steps"
  then have s: "set steps' = set steps" by (metis set_mset_mset)
  have "mset (map fst steps') = mset (map fst steps)" using m by (metis mset_map)
  moreover have "distinct (map fst steps)" using c by (simp add: compatible_def)
  ultimately have "distinct (map fst steps')" by (metis mset_eq_imp_distinct_iff)
  then show ?thesis using c s by (simp add: compatible_def)
qed

lemma replace_all_perm:
  assumes "compatible steps" and "mset steps' = mset steps"
  shows "replace_all steps' s = replace_all steps s"
proof -
  have c': "compatible steps'" using compatible_perm [OF assms] .
  have "set (rev steps') = set (rev steps)" using assms(2) by (metis set_mset_mset set_rev)
  moreover have "compatible (rev steps')" using compatible_perm [OF c'] by simp
  ultimately have "substitute (rev steps') s = substitute (rev steps) s"
    using substitute_perm by blast
  then show ?thesis using replace_all_substitute assms(1) c' by simp
qed

lemma placeholders_apart:
  "list_all (\<lambda>p. list_all (\<lambda>q. p = q \<or> apart p q) placeholders) placeholders"
  by (simp add: placeholders_def apart_def upt_rec)

lemma placeholders_distinct: "distinct placeholders"
  by (simp add: placeholders_def)

lemma placeholder_letters:
  "list_all (\<lambda>q. q \<noteq> [] \<and> hd q \<notin> token_chars \<and> last q \<notin> token_chars \<and>
       set q \<inter> token_chars \<subseteq> {CHR ''_''} \<and> \<not> sublist ''__'' q) placeholders"
  by (simp add: placeholders_def token_chars_def sublist_Cons_right)

lemma decimal_chars_token: "set ''0123456789-'' \<subseteq> token_chars - {CHR ''_''}"
  by (simp add: token_chars_def)

lemma weekdays_inert:
  "list_all (\<lambda>x. list_all (\<lambda>q. inert x q) placeholders) days_of_week"
  by (simp add: placeholders_def days_of_week_def inert_def sublist_Cons_right)

lemma decimal_digits_chars:
  "decimal_digits n \<noteq> [] \<and> set (decimal_digits n) \<subseteq> set ''0123456789''"
proof (induction n rule: decimal_digits.induct)
  case (1 n)
  have d: "''0123456789'' ! k \<in> set ''0123456789''" if "k < 10" for k
    using that by (intro nth_mem) simp
  show ?case
  proof (cases "n < 10")
    case True
    have "decimal_digits n = [''0123456789'' ! n]"
      using True by (subst decimal_digits.simps) simp
    then show ?thesis using d [OF True] by simp
  next
    case False
    have e: "decimal_digits n = decimal_digits (n div 10) @ [''0123456789'' ! (n mod 10)]"
      using False by (subst decimal_digits.simps) simp
    have "n mod 10 < 10" by simp
    from d [OF this] 1 [OF False] show ?thesis unfolding e by simp
  qed
qed

lemma decimal_chars: "decimal n \<noteq> [] \<and> set (decimal n) \<subseteq> token_chars - {CHR ''_''}"
proof -
  have a: "set ''0123456789'' \<subseteq> set ''0123456789-''" by (simp add: subset_insertI2)
  have m: "CHR ''-'' \<in> set ''0123456789-''" by simp
  have "decimal n \<noteq> [] \<and> set (decimal n) \<subseteq> set ''0123456789-''"
  proof (cases "n < 0")
    case True
    then have "decimal n = CHR ''-'' # decimal_digits (nat (- n))" by (simp add: decimal_def)
    then show ?thesis using decimal_digits_chars [of "nat (- n)"] a m
      by (simp only: list.set insert_subset) blast
  next
    case False
    then have "decimal n = decimal_digits (nat n)" by (simp add: decimal_def)
    then show ?thesis using decimal_digits_chars [of "nat n"] a by (simp only:) blast
  qed
  then show ?thesis using decimal_chars_token by blast
qed

lemma placeholderD:
  assumes "q \<in> set placeholders"
  shows "q \<noteq> []" "hd q \<notin> token_chars" "last q \<notin> token_chars"
    "set q \<inter> token_chars \<subseteq> {CHR ''_''}" "\<not> sublist ''__'' q"
  using assms placeholder_letters unfolding list_all_iff by blast+

lemma inert_decimal:
  assumes "q \<in> set placeholders"
  shows "inert (decimal n) q"
proof -
  note q = placeholderD [OF assms]
  have s: "set (decimal n) \<subseteq> token_chars - {CHR ''_''}" and ne: "decimal n \<noteq> []"
    using decimal_chars [of n] by simp_all
  have "hd q \<notin> set (decimal n)" "last q \<notin> set (decimal n)" using q(2,3) s by blast+
  moreover have "\<not> sublist (decimal n) q"
  proof
    assume "sublist (decimal n) q"
    then have "set (decimal n) \<subseteq> set q" by (rule set_mono_sublist)
    moreover have "hd (decimal n) \<in> set (decimal n)" using ne by simp
    ultimately show False using q(4) s by blast
  qed
  ultimately show ?thesis unfolding inert_def by blast
qed

lemma inert_weekday:
  assumes "q \<in> set placeholders"
  shows "inert (days_of_week ! nat (n mod 7)) q"
proof -
  have "nat (n mod 7) < length days_of_week" by (simp add: days_of_week_def)
  then have "days_of_week ! nat (n mod 7) \<in> set days_of_week" by (rule nth_mem)
  then show ?thesis using weekdays_inert assms unfolding list_all_iff by blast
qed

lemma fullmatch_token_chars:
  "ICON_TOKEN_RE_fullmatch t \<longleftrightarrow> t \<noteq> [] \<and> set t \<subseteq> token_chars"
  unfolding ICON_TOKEN_RE_fullmatch_def token_chars_def list_all_iff by blast

lemma inert_token:
  assumes "ICON_TOKEN_RE_fullmatch t" and "t \<noteq> ''_''" and "q \<in> set placeholders"
  shows "inert t q"
proof -
  note q = placeholderD [OF assms(3)]
  from assms(1) have t: "t \<noteq> []" "set t \<subseteq> token_chars"
    unfolding fullmatch_token_chars by simp_all
  have "\<not> sublist t q"
  proof
    assume sub: "sublist t q"
    then have "set t \<subseteq> set q" by (rule set_mono_sublist)
    then have u: "set t \<subseteq> {CHR ''_''}" using t(2) q(4) by blast
    obtain a r where ar: "t = a # r" using t(1) by (cases t) auto
    then have a: "a = CHR ''_''" using u by simp
    have "r \<noteq> []" using assms(2) ar a by auto
    then obtain b r' where br: "r = b # r'" by (cases r) auto
    then have b: "b = CHR ''_''" using u ar by simp
    have "prefix ''__'' t" using ar br a b by simp
    then have "sublist ''__'' q" using sub
      by (meson prefix_imp_sublist sublist_order.order_trans)
    then show False using q(5) by simp
  qed
  moreover have "hd q \<notin> set t" "last q \<notin> set t" using q(2,3) t(2) by blast+
  ultimately show ?thesis unfolding inert_def by blast
qed

lemma render_svg_replace_all:
  assumes "render_svg template highs lows icons day_one = Inr out"
  shows "out = replace_all (substitutions highs lows icons day_one) template"
  using render_svg_InrD [OF assms]
  by (simp add: replace_all_def substitutions_def temperature_body_def)

lemma substitutions_keys: "map fst (substitutions highs lows icons day_one) = placeholders"
  by (simp add: substitutions_def placeholders_def)

lemma substitutions_inert:
  assumes "\<forall>t\<in>set (take 4 icons). ICON_TOKEN_RE_fullmatch t \<and> t \<noteq> ''_''" and "3 < length icons"
  shows "\<forall>b\<in>set (substitutions highs lows icons day_one). \<forall>q\<in>set placeholders. inert (snd b) q"
proof -
  have "icons ! 0 \<in> set (take 4 icons)" "icons ! 1 \<in> set (take 4 icons)"
    "icons ! 2 \<in> set (take 4 icons)" "icons ! 3 \<in> set (take 4 icons)"
    using take_4 [OF assms(2)] by simp_all
  then have i: "\<forall>q\<in>set placeholders. inert (icons ! 0) q"
    "\<forall>q\<in>set placeholders. inert (icons ! 1) q"
    "\<forall>q\<in>set placeholders. inert (icons ! 2) q"
    "\<forall>q\<in>set placeholders. inert (icons ! 3) q"
    using assms(1) inert_token by blast+
  have d: "\<forall>q\<in>set placeholders. inert (decimal n) q" for n
    using inert_decimal by blast
  have w: "\<forall>q\<in>set placeholders. inert (days_of_week ! nat (n mod 7)) q" for n
    using inert_weekday by blast
  show ?thesis
    using i d w unfolding substitutions_def by auto
qed

lemma compatible_substitutions:
  assumes "\<forall>t\<in>set (take 4 icons). ICON_TOKEN_RE_fullmatch t \<and> t \<noteq> ''_''" and "3 < length icons"
  shows "compatible (substitutions highs lows icons day_one)"
proof -
  let ?s = "substitutions highs lows icons day_one"
  have k: "fst a \<in> set placeholders" if "a \<in> set ?s" for a
    using that substitutions_keys [of highs lows icons day_one] by (metis image_eqI set_map)
  have "fst a \<noteq> [] \<and> (\<forall>b\<in>set ?s. fst b \<noteq> fst a \<longrightarrow> apart (fst b) (fst a) \<and> inert (snd b) (fst a))"
    if a: "a \<in> set ?s" for a
  proof (intro conjI ballI impI)
    show "fst a \<noteq> []" using placeholderD(1) [OF k [OF a]] .
  next
    fix b assume b: "b \<in> set ?s" and ne: "fst b \<noteq> fst a"
    from placeholders_apart k [OF a] k [OF b] ne show "apart (fst b) (fst a)"
      unfolding list_all_iff by blast
    from substitutions_inert [OF assms] b k [OF a] show "inert (snd b) (fst a)" by blast
  qed
  moreover have "distinct (map fst ?s)"
    using placeholders_distinct by (simp only: substitutions_keys)
  ultimately show ?thesis unfolding compatible_def by blast
qed

lemma no_key_left:
  assumes "(q, y) \<in> set steps" and "q \<noteq> []" and "\<forall>b\<in>set steps. inert (snd b) q"
  shows "\<not> sublist q (substitute steps s)"
proof (induction "length s" arbitrary: s rule: less_induct)
  case less
  have g: "\<forall>(p, x)\<in>set steps. last q \<notin> set x \<and> \<not> sublist x q"
    using assms(3) by (auto simp: inert_def)
  show ?case
  proof (cases s)
    case Nil
    then show ?thesis using assms(2) by simp
  next
    case (Cons c cs)
    show ?thesis
    proof (cases "find (\<lambda>(old, new). old \<noteq> [] \<and> prefix old s) steps")
      case None
      then have e: "substitute steps s = c # substitute steps cs" using Cons by simp
      have "\<not> prefix q (c # substitute steps cs)"
      proof
        assume "prefix q (c # substitute steps cs)"
        then obtain q' where q: "q = c # q'" and p: "prefix q' (substitute steps cs)"
          using assms(2) by (cases q) auto
        have "suffix q' q" using q by (simp add: suffix_def)
        from prefix_substitute [OF g this p] have "prefix q s" using q Cons by simp
        then show False using None assms(1,2) by (auto simp: find_None_iff)
      qed
      moreover have "\<not> sublist q (substitute steps cs)" using less [of cs] Cons by simp
      ultimately show ?thesis unfolding e by (simp add: sublist_Cons_right)
    next
      case (Some a)
      obtain p x where a: "a = (p, x)" by (cases a)
      from substitute_found [OF Some [unfolded a]] obtain r where
        e: "substitute steps s = x @ substitute steps r" and len: "length r < length s"
        and m: "(p, x) \<in> set steps" by blast
      have hd: "hd q \<notin> set x" using assms(3) m by (auto simp: inert_def)
      have "\<not> sublist q (x @ substitute steps r)"
      proof
        assume "sublist q (x @ substitute steps r)"
        then consider "sublist q x" | "sublist q (substitute steps r)"
          | q1 q2 where "q = q1 @ q2" "suffix q1 x" "prefix q2 (substitute steps r)" "q1 \<noteq> []"
          unfolding sublist_append by (metis append_Nil prefix_imp_sublist)
        then show False
        proof cases
          case 1
          then have "set q \<subseteq> set x" by (rule set_mono_sublist)
          then show False using hd assms(2) by (metis hd_in_set subsetD)
        next
          case 2
          then show False using less [OF len] by simp
        next
          case 3
          then have "hd q = hd q1" "hd q1 \<in> set q1" "set q1 \<subseteq> set x"
            by (auto simp: set_mono_suffix)
          then show False using hd by auto
        qed
      qed
      then show ?thesis unfolding e .
    qed
  qed
qed

text \<open>
  C7, amended. When the rendering returns and none of the four icons is the single
  underscore, every occurrence of the fourteen placeholders in the template is replaced,
  wherever it stands: the output is the template with all of them replaced at once, no
  placeholder is left in it, no new text holds a placeholder, and the fourteen
  replacements give the same output in every order.
\<close>

theorem replacement_order_independent:
  assumes "render_svg template highs lows icons day_one = Inr out"
    and "\<forall>t\<in>set (take 4 icons). ICON_TOKEN_RE_fullmatch t \<and> t \<noteq> ''_''"
  shows "out = substitute (substitutions highs lows icons day_one) template \<and>
         (\<forall>steps. mset steps = mset (substitutions highs lows icons day_one)
            \<longrightarrow> replace_all steps template = out) \<and>
         (\<forall>p\<in>set placeholders. \<not> sublist p out) \<and>
         (\<forall>b\<in>set (substitutions highs lows icons day_one).
            \<forall>p\<in>set placeholders. \<not> sublist p (snd b))"
proof -
  let ?s = "substitutions highs lows icons day_one"
  have len: "3 < length icons" using render_svg_InrD [OF assms(1)] by simp
  have c: "compatible ?s" using compatible_substitutions [OF assms(2) len] .
  have i: "\<forall>b\<in>set ?s. \<forall>q\<in>set placeholders. inert (snd b) q"
    using substitutions_inert [OF assms(2) len] .
  have out: "out = replace_all ?s template" using render_svg_replace_all [OF assms(1)] .
  have "set (rev ?s) = set ?s" by simp
  moreover have "compatible (rev ?s)" using compatible_perm [OF c, of "rev ?s"] by simp
  ultimately have "substitute (rev ?s) template = substitute ?s template"
    using substitute_perm by blast
  then have a: "out = substitute ?s template"
    using out replace_all_substitute [OF c] by simp
  have b: "replace_all steps template = out" if "mset steps = mset ?s" for steps
    using replace_all_perm [OF c that] out by simp
  have d: "\<not> sublist p out" if p: "p \<in> set placeholders" for p
  proof -
    from p have "p \<in> set (map fst ?s)" by (simp only: substitutions_keys)
    then obtain y where y: "(p, y) \<in> set ?s" by auto
    have "\<forall>b\<in>set ?s. inert (snd b) p" using i p by blast
    from no_key_left [OF y placeholderD(1) [OF p] this] show ?thesis unfolding a .
  qed
  have e: "\<not> sublist p (snd b)" if "b \<in> set ?s" "p \<in> set placeholders" for b p
  proof
    assume "sublist p (snd b)"
    then have "set p \<subseteq> set (snd b)" by (rule set_mono_sublist)
    moreover have "hd p \<in> set p" using placeholderD(1) [OF that(2)] by simp
    moreover have "hd p \<notin> set (snd b)" using i that by (auto simp: inert_def)
    ultimately show False by blast
  qed
  show ?thesis using a b d e by blast
qed

lemmas eval_substitutions = substitutions_def decimal_def decimal_digits.simps eval_ordinal

text \<open>
  The icon \<^verbatim>\<open>_\<close> passes the pattern. In the template \<^verbatim>\<open>HIGHICON_ONEONE\<close> it joins
  the text around it to \<^verbatim>\<open>HIGH_ONE\<close>, which the later replacement of the first high
  then takes; with the high replaced first, \<^verbatim>\<open>HIGH_ONE\<close> stays in the output.
\<close>

theorem replacement_order_counterexample:
  "ICON_TOKEN_RE_fullmatch ''_'' \<and>
   render_svg ''HIGHICON_ONEONE'' [70, 72, 68, 65] [55, 58, 50, 48]
     [''_'', ''few'', ''bkn'', ''rain''] \<lparr>year = 2024, month = 6, day = 3\<rparr> = Inr ''70'' \<and>
   mset high_first = mset (substitutions [70, 72, 68, 65] [55, 58, 50, 48]
     [''_'', ''few'', ''bkn'', ''rain''] \<lparr>year = 2024, month = 6, day = 3\<rparr>) \<and>
   replace_all high_first ''HIGHICON_ONEONE'' = ''HIGH_ONE''"
proof -
  have 1: "ICON_TOKEN_RE_fullmatch ''_''"
    by (simp add: ICON_TOKEN_RE_fullmatch_def)
  have 2: "render_svg ''HIGHICON_ONEONE'' [70, 72, 68, 65] [55, 58, 50, 48]
     [''_'', ''few'', ''bkn'', ''rain''] \<lparr>year = 2024, month = 6, day = 3\<rparr> = Inr ''70''"
    by (simp add: eval_render)
  have 3: "substitutions [70, 72, 68, 65] [55, 58, 50, 48]
     [''_'', ''few'', ''bkn'', ''rain''] \<lparr>year = 2024, month = 6, day = 3\<rparr> =
     [(''ICON_ONE'', ''_''), (''ICON_TWO'', ''few''), (''ICON_THREE'', ''bkn''),
      (''ICON_FOUR'', ''rain''),
      (''HIGH_ONE'', ''70''), (''HIGH_TWO'', ''72''), (''HIGH_THREE'', ''68''), (''HIGH_FOUR'', ''65''),
      (''LOW_ONE'', ''55''), (''LOW_TWO'', ''58''), (''LOW_THREE'', ''50''), (''LOW_FOUR'', ''48''),
      (''DAY_THREE'', ''Wednesday''), (''DAY_FOUR'', ''Thursday'')]"
    by (simp add: eval_substitutions)
  have 4: "mset high_first = mset (substitutions [70, 72, 68, 65] [55, 58, 50, 48]
     [''_'', ''few'', ''bkn'', ''rain''] \<lparr>year = 2024, month = 6, day = 3\<rparr>)"
    unfolding 3 high_first_def by (simp add: add_mset_commute)
  have 5: "replace_all high_first ''HIGHICON_ONEONE'' = ''HIGH_ONE''"
    by (simp add: replace_all_def high_first_def)
  show ?thesis using 1 2 4 5 by simp
qed

theorem replacement_order_independent_witness:
  "render_svg ''xxHIGH_ONExx DAY_FOUR'' [70, 72, 68, 65] [55, 58, 50, 48]
     [''few'', ''bkn'', ''na'', ''rain''] \<lparr>year = 2024, month = 6, day = 3\<rparr> =
     Inr ''xx70xx Thursday'' \<and>
   replace_all (rev (substitutions [70, 72, 68, 65] [55, 58, 50, 48]
     [''few'', ''bkn'', ''na'', ''rain''] \<lparr>year = 2024, month = 6, day = 3\<rparr>))
     ''xxHIGH_ONExx DAY_FOUR'' = ''xx70xx Thursday'' \<and>
   ''xx70xx Thursday'' = substitute (substitutions [70, 72, 68, 65] [55, 58, 50, 48]
     [''few'', ''bkn'', ''na'', ''rain''] \<lparr>year = 2024, month = 6, day = 3\<rparr>)
     ''xxHIGH_ONExx DAY_FOUR''"
proof -
  let ?s = "substitutions [70, 72, 68, 65] [55, 58, 50, 48]
     [''few'', ''bkn'', ''na'', ''rain''] \<lparr>year = 2024, month = 6, day = 3\<rparr>"
  have r: "render_svg ''xxHIGH_ONExx DAY_FOUR'' [70, 72, 68, 65] [55, 58, 50, 48]
     [''few'', ''bkn'', ''na'', ''rain''] \<lparr>year = 2024, month = 6, day = 3\<rparr> =
     Inr ''xx70xx Thursday''"
    by (simp add: eval_render)
  have t: "\<forall>t\<in>set (take 4 [''few'', ''bkn'', ''na'', ''rain'']).
      ICON_TOKEN_RE_fullmatch t \<and> t \<noteq> ''_''"
    by (simp add: ICON_TOKEN_RE_fullmatch_def)
  note w = replacement_order_independent [OF r t]
  have m: "mset (rev ?s) = mset ?s" by simp
  from w have "replace_all (rev ?s) ''xxHIGH_ONExx DAY_FOUR'' = ''xx70xx Thursday''"
    using m by blast
  moreover from w have "''xx70xx Thursday'' = substitute ?s ''xxHIGH_ONExx DAY_FOUR''"
    by blast
  ultimately show ?thesis using r by blast
qed

end
